theory Spec2Isabelle
  imports Complex_Main "HOL-Library.Word"
begin

section \<open>Solar-system map generator: a shallow embedding\<close>

text \<open>
  The development follows \<^verbatim>\<open>Map Testing/solar_system_tripled_rockies.py\<close> section by
  section. Python integers are \<^typ>\<open>int\<close>. Python floats are idealised: the layout
  arithmetic (scale, radii, positions, moon offsets) is carried out in exact rationals,
  and the trigonometry of the texture projection in exact reals, which the program's
  doubles only approximate. Where a result depends on the last bits of a double (the
  integer part of a texture coordinate), the statement is made for the coordinate as
  computed, whatever its value, and not for the exact formula. A raise is a value of type
  \<open>error\<close> on the left of a sum.
\<close>

subsection \<open>Errors and Python numerics\<close>

datatype error = NameError | ValueError | ZeroDivisionError | IndexError | TypeError

definition bind_err :: "error + 'a \<Rightarrow> ('a \<Rightarrow> error + 'b) \<Rightarrow> error + 'b" where
  "bind_err m f = (case m of Inl e \<Rightarrow> Inl e | Inr v \<Rightarrow> f v)"

text \<open>\<^verbatim>\<open>round(x)\<close> on a float: to the nearest integer, a tie going to the even one.\<close>

definition py_round :: "rat \<Rightarrow> int" where
  "py_round x =
     (let f = \<lfloor>x\<rfloor>; d = x - of_int f
      in if d < 1/2 then f else if 1/2 < d then f + 1 else if even f then f else f + 1)"

text \<open>\<^verbatim>\<open>int(x)\<close> on a float: truncation towards zero.\<close>

definition py_int :: "rat \<Rightarrow> int" where
  "py_int x = (if 0 \<le> x then \<lfloor>x\<rfloor> else \<lceil>x\<rceil>)"

subsection \<open>Parameters\<close>

definition WIDTH :: int where "WIDTH = 16384"
definition HEIGHT :: int where "HEIGHT = 8192"

type_synonym pixel = "16 word"

definition GRAY_PLANET :: pixel where "GRAY_PLANET = 45000"
definition GRAY_ORBIT_RING :: pixel where "GRAY_ORBIT_RING = 30000"
definition GRAY_SAT_RING :: pixel where "GRAY_SAT_RING = 60000"
definition GRAY_ASTEROID :: pixel where "GRAY_ASTEROID = 35000"

definition LEFT_MARGIN :: int where "LEFT_MARGIN = 100"
definition RIGHT_MARGIN :: int where "RIGHT_MARGIN = 100"
definition EARTH_PX :: int where "EARTH_PX = 150"
definition MIN_GAP_MARS_JUP :: int where "MIN_GAP_MARS_JUP = 1100"

definition LOW_OFF :: int where "LOW_OFF = 24"
definition LOW_THICK :: int where "LOW_THICK = 6"
definition HIGH_GAP :: int where "HIGH_GAP = 30"
definition HIGH_THICK :: int where "HIGH_THICK = 6"
definition MOON_RING_OFF :: int where "MOON_RING_OFF = 6"
definition MOON_RING_THICK :: int where "MOON_RING_THICK = 4"

definition SHIFT_MERCURY :: int where "SHIFT_MERCURY = 250"
definition SHIFT_JUPITER :: int where "SHIFT_JUPITER = 1500"
definition BELT_LEFT_SHIFT :: int where "BELT_LEFT_SHIFT = 300"
definition BELT_RIGHT_SHIFT :: int where "BELT_RIGHT_SHIFT = 800"

subsection \<open>Planet data\<close>

text \<open>The keys of \<^verbatim>\<open>PLANET_KM\<close>, in the dictionary's insertion order.\<close>

datatype planet = Mercury | Venus | Earth | Mars | Jupiter | Saturn | Uranus | Neptune | Pluto

definition planets :: "planet list" where
  "planets = [Mercury, Venus, Earth, Mars, Jupiter, Saturn, Uranus, Neptune, Pluto]"

fun PLANET_KM :: "planet \<Rightarrow> rat" where
  "PLANET_KM Mercury = 2440"
| "PLANET_KM Venus = 6052"
| "PLANET_KM Earth = 6371"
| "PLANET_KM Mars = 3390"
| "PLANET_KM Jupiter = 69911"
| "PLANET_KM Saturn = 58232"
| "PLANET_KM Uranus = 25362"
| "PLANET_KM Neptune = 24622"
| "PLANET_KM Pluto = 1188"

definition GAS :: "planet set" where "GAS = {Jupiter, Saturn, Uranus, Neptune}"
definition SATURN :: planet where "SATURN = Saturn"
definition ROCKY :: "planet set" where "ROCKY = {Mercury, Venus, Earth, Mars, Pluto}"

subsection \<open>Base scale and radii\<close>

definition scale :: rat where
  "scale = of_int EARTH_PX / PLANET_KM Earth"

definition raw_px :: "planet \<Rightarrow> rat" where
  "raw_px p = PLANET_KM p * scale"

definition shrink :: rat where
  "shrink = min 1 (of_int (3 * EARTH_PX) / raw_px Jupiter)"

text \<open>The comprehension of line 59, then the assignment of line 60 for Earth.\<close>

definition radius_base :: "planet \<Rightarrow> int" where
  "radius_base p =
     (if p = Earth then EARTH_PX
      else py_round (raw_px p * (if p \<in> GAS then shrink else 1)))"

definition low_outer_from_r :: "int \<Rightarrow> int" where
  "low_outer_from_r r = r + LOW_OFF + LOW_THICK"

definition ring_low_outer_base :: "planet \<Rightarrow> int" where
  "ring_low_outer_base p =
     (if p = SATURN then py_round (of_int (radius_base p) * (3/2))
      else low_outer_from_r (radius_base p))"

definition ring_high_inner_base :: "planet \<Rightarrow> int option" where
  "ring_high_inner_base p =
     (if p \<noteq> SATURN then Some (ring_low_outer_base p + HIGH_GAP) else None)"

definition ring_high_outer_base :: "planet \<Rightarrow> int option" where
  "ring_high_outer_base p =
     (if p \<noteq> SATURN then map_option (\<lambda>v. v + HIGH_THICK) (ring_high_inner_base p) else None)"

subsection \<open>Positions of the original layout\<close>

definition INNER :: "planet list" where
  "INNER = [Mercury, Venus, Earth, Mars]"

definition inner_right :: int where
  "inner_right = py_int (of_int WIDTH * (3/10))"

definition inner_spacing :: rat where
  "inner_spacing =
     of_int (inner_right - (LEFT_MARGIN + radius_base Mercury) - radius_base Mars)
       / of_int (int (length INNER) - 1)"

text \<open>
  \<^verbatim>\<open>centre_x_base\<close> is filled key by key (lines 73 to 85); the table below gives each
  key the expression assigned to it, one definition per assignment. Mars's outer ring
  extent is a number (only Saturn's is \<^verbatim>\<open>None\<close>), so the sum for Jupiter does not raise.
\<close>

definition cxb_Mercury :: int where
  "cxb_Mercury = LEFT_MARGIN + radius_base Mercury"

definition cxb_inner :: "int \<Rightarrow> int" where
  "cxb_inner i = py_round (of_int cxb_Mercury + of_int i * inner_spacing)"

definition cxb_Jupiter :: int where
  "cxb_Jupiter =
     (cxb_inner 3 + the (ring_high_outer_base Mars) + MIN_GAP_MARS_JUP
        + ring_low_outer_base Jupiter) + 600"

definition cxb_Pluto :: int where
  "cxb_Pluto = WIDTH - RIGHT_MARGIN - radius_base Pluto"

definition dist_jp_pl :: int where
  "dist_jp_pl = cxb_Pluto - cxb_Jupiter"

definition cxb_Neptune :: int where
  "cxb_Neptune = py_round (of_int cxb_Jupiter + (88/100) * of_int dist_jp_pl)"

definition cxb_Saturn :: int where
  "cxb_Saturn = (cxb_Jupiter + cxb_Neptune) div 2 - 100"

definition cxb_Uranus :: int where
  "cxb_Uranus = (cxb_Saturn + cxb_Neptune) div 2"

fun centre_x_base :: "planet \<Rightarrow> int" where
  "centre_x_base Mercury = cxb_Mercury"
| "centre_x_base Venus = cxb_inner 1"
| "centre_x_base Earth = cxb_inner 2"
| "centre_x_base Mars = cxb_inner 3"
| "centre_x_base Jupiter = cxb_Jupiter"
| "centre_x_base Saturn = cxb_Saturn"
| "centre_x_base Uranus = cxb_Uranus"
| "centre_x_base Neptune = cxb_Neptune"
| "centre_x_base Pluto = cxb_Pluto"

definition centre_y :: "planet \<Rightarrow> int" where
  "centre_y p = HEIGHT div 2"

definition centre_x :: "planet \<Rightarrow> int" where
  "centre_x p =
     (if p = Mercury then centre_x_base p + SHIFT_MERCURY
      else if p = Jupiter then centre_x_base p + SHIFT_JUPITER
      else centre_x_base p)"

subsection \<open>Updated radii and rings\<close>

definition radius_px :: "planet \<Rightarrow> int" where
  "radius_px p = (if p \<in> ROCKY then radius_base p * 3 else radius_base p)"

definition ring_low_outer :: "planet \<Rightarrow> int" where
  "ring_low_outer p =
     (if p = SATURN then py_round (of_int (radius_px p) * (3/2))
      else low_outer_from_r (radius_px p))"

definition ring_high_inner :: "planet \<Rightarrow> int option" where
  "ring_high_inner p =
     (if p \<noteq> SATURN then Some (ring_low_outer p + HIGH_GAP) else None)"

definition ring_high_outer :: "planet \<Rightarrow> int option" where
  "ring_high_outer p =
     (if p \<noteq> SATURN then map_option (\<lambda>v. v + HIGH_THICK) (ring_high_inner p) else None)"

subsection \<open>Canvas and the NumPy operations the rasteriser uses\<close>

text \<open>
  The canvas is the \<^verbatim>\<open>HEIGHT\<close> by \<^verbatim>\<open>WIDTH\<close> array of unsigned 16-bit pixels, read as
  \<open>canvas y x\<close>; only the entries with \<open>0 \<le> y < HEIGHT\<close> and \<open>0 \<le> x < WIDTH\<close> exist in
  the program. A two-dimensional array that the program builds (a mask, a texture, a
  disc patch) carries its shape.
\<close>

type_synonym canvas = "int \<Rightarrow> int \<Rightarrow> pixel"

definition blank :: canvas where
  "blank = (\<lambda>y x. 0)"

record 'a arr2 =
  rows :: nat
  cols :: nat
  cell :: "nat \<Rightarrow> nat \<Rightarrow> 'a"

text \<open>
  A slice \<^verbatim>\<open>a[start:stop]\<close> of an axis of length \<open>n\<close>: a negative bound counts from the
  end, then both are clipped to \<open>0..n\<close>; the result is the index range \<open>[s, e)\<close>, empty
  when the stop does not exceed the start.
\<close>

definition slice_clip :: "int \<Rightarrow> int \<Rightarrow> int" where
  "slice_clip n i = (if i < 0 then max 0 (i + n) else min i n)"

definition slice_bounds :: "int \<Rightarrow> int \<Rightarrow> int \<Rightarrow> int \<times> int" where
  "slice_bounds n start stop =
     (let s = slice_clip n start; e = slice_clip n stop in (s, max s e))"

text \<open>\<^verbatim>\<open>np.arange(a, b)\<close>: its length, and its entry at an index.\<close>

definition arange_len :: "int \<Rightarrow> int \<Rightarrow> nat" where
  "arange_len a b = nat (b - a)"

definition arange_at :: "int \<Rightarrow> nat \<Rightarrow> int" where
  "arange_at a i = a + int i"

text \<open>
  \<^verbatim>\<open>canvas[ya:yb, xa:xb][mask] = src\<close> for a boolean mask. NumPy compares the mask's
  shape with the view's axis by axis and raises \<^verbatim>\<open>IndexError\<close> on a difference, but
  only along the axes where the mask is not empty; an empty mask selects nothing. With
  equal shapes the entries under a true mask entry are stored.
\<close>

definition mask_store ::
  "canvas \<Rightarrow> int \<times> int \<Rightarrow> int \<times> int \<Rightarrow> bool arr2 \<Rightarrow> (nat \<Rightarrow> nat \<Rightarrow> pixel) \<Rightarrow> error + canvas" where
  "mask_store canvas ys xs msk src =
     (let (ya, yb) = slice_bounds HEIGHT (fst ys) (snd ys);
          (xa, xb) = slice_bounds WIDTH (fst xs) (snd xs)
      in if (rows msk \<noteq> 0 \<and> int (rows msk) \<noteq> yb - ya)
            \<or> (cols msk \<noteq> 0 \<and> int (cols msk) \<noteq> xb - xa) then Inl IndexError
         else if rows msk = 0 \<or> cols msk = 0 then Inr canvas
         else Inr (\<lambda>y x. if ya \<le> y \<and> y < yb \<and> xa \<le> x \<and> x < xb
                             \<and> cell msk (nat (y - ya)) (nat (x - xa))
                          then src (nat (y - ya)) (nat (x - xa)) else canvas y x))"

definition in_disk :: "int \<Rightarrow> int \<Rightarrow> int \<Rightarrow> int \<Rightarrow> int \<Rightarrow> bool" where
  "in_disk cx cy r x y \<longleftrightarrow> (x - cx)\<^sup>2 + (y - cy)\<^sup>2 \<le> r\<^sup>2"

definition in_annulus :: "int \<Rightarrow> int \<Rightarrow> int \<Rightarrow> int \<Rightarrow> int \<Rightarrow> int \<Rightarrow> bool" where
  "in_annulus cx cy r_in r_out x y \<longleftrightarrow>
     (let d2 = (x - cx)\<^sup>2 + (y - cy)\<^sup>2 in d2 \<le> r_out\<^sup>2 \<and> d2 \<ge> r_in\<^sup>2)"

definition draw_circle :: "int \<Rightarrow> int \<Rightarrow> int \<Rightarrow> pixel \<Rightarrow> canvas \<Rightarrow> error + canvas" where
  "draw_circle cx cy r val canvas =
     (let x0 = max 0 (cx - r); x1 = min (WIDTH - 1) (cx + r);
          y0 = max 0 (cy - r); y1 = min (HEIGHT - 1) (cy + r);
          msk = \<lparr>rows = arange_len y0 (y1 + 1), cols = arange_len x0 (x1 + 1),
                  cell = (\<lambda>i j. in_disk cx cy r (arange_at x0 j) (arange_at y0 i))\<rparr>
      in mask_store canvas (y0, y1 + 1) (x0, x1 + 1) msk (\<lambda>i j. val))"

definition draw_annulus :: "int \<Rightarrow> int \<Rightarrow> int \<Rightarrow> int \<Rightarrow> pixel \<Rightarrow> canvas \<Rightarrow> error + canvas" where
  "draw_annulus cx cy r_in r_out val canvas =
     (let x0 = max 0 (cx - r_out); x1 = min (WIDTH - 1) (cx + r_out);
          y0 = max 0 (cy - r_out); y1 = min (HEIGHT - 1) (cy + r_out);
          msk = \<lparr>rows = arange_len y0 (y1 + 1), cols = arange_len x0 (x1 + 1),
                  cell = (\<lambda>i j. in_annulus cx cy r_in r_out (arange_at x0 j) (arange_at y0 i))\<rparr>
      in mask_store canvas (y0, y1 + 1) (x0, x1 + 1) msk (\<lambda>i j. val))"

subsection \<open>Planetary rings and bodies\<close>

definition sat_in :: int where
  "sat_in = radius_px Saturn + 10"

definition sat_out :: int where
  "sat_out = py_round (of_int (radius_px Saturn) * (3/2))"


fun draw_rings :: "planet list \<Rightarrow> canvas \<Rightarrow> error + canvas" where
  "draw_rings [] c = Inr c"
| "draw_rings (p # ps) c =
     (if p \<noteq> SATURN then
        (let low_in = radius_px p + LOW_OFF; hi_in = the (ring_high_inner p)
         in bind_err (draw_annulus (centre_x p) (centre_y p) low_in (low_in + LOW_THICK)
                        GRAY_ORBIT_RING c)
              (\<lambda>c1. bind_err (draw_annulus (centre_x p) (centre_y p) hi_in (hi_in + HIGH_THICK)
                                 GRAY_ORBIT_RING c1)
                       (draw_rings ps)))
      else draw_rings ps c)"

definition draw_saturn_ring :: "canvas \<Rightarrow> error + canvas" where
  "draw_saturn_ring c =
     draw_annulus (centre_x Saturn) (centre_y Saturn) sat_in sat_out GRAY_SAT_RING c"

fun draw_bodies :: "planet list \<Rightarrow> canvas \<Rightarrow> error + canvas" where
  "draw_bodies [] c = Inr c"
| "draw_bodies (p # ps) c =
     bind_err (draw_circle (centre_x p) (centre_y p) (radius_px p) GRAY_PLANET c)
       (draw_bodies ps)"

subsection \<open>Texture mapping helpers\<close>

text \<open>
  The source image is 8-bit greyscale (mode \<^verbatim>\<open>L\<close>), \<open>rows\<close> is its height \<^verbatim>\<open>th\<close> and
  \<open>cols\<close> its width \<^verbatim>\<open>tw\<close>; \<^verbatim>\<open>tex\<close> holds each sample divided by 255. The functions of
  Python's \<^verbatim>\<open>math\<close> module are the real functions they approximate, with the raises
  of the module kept.
\<close>

definition py_div :: "int \<Rightarrow> int \<Rightarrow> error + real" where
  "py_div a b = (if b = 0 then Inl ZeroDivisionError else Inr (real_of_int a / real_of_int b))"

definition py_asin :: "real \<Rightarrow> error + real" where
  "py_asin x = (if - 1 \<le> x \<and> x \<le> 1 then Inr (arcsin x) else Inl ValueError)"

definition py_atan2 :: "real \<Rightarrow> real \<Rightarrow> real" where
  "py_atan2 y x =
     (if 0 < x then arctan (y / x)
      else if x < 0 then (if 0 \<le> y then arctan (y / x) + pi else arctan (y / x) - pi)
      else if 0 < y then pi / 2 else if y < 0 then - (pi / 2) else 0)"

text \<open>\<^verbatim>\<open>int(x)\<close> on a real: truncation towards zero.\<close>

definition py_trunc :: "real \<Rightarrow> int" where
  "py_trunc x = (if 0 \<le> x then \<lfloor>x\<rfloor> else \<lceil>x\<rceil>)"

text \<open>Indexing one axis of length \<open>n\<close> with an integer: a negative index counts from the end.\<close>

definition np_index :: "nat \<Rightarrow> int \<Rightarrow> error + nat" where
  "np_index n i =
     (if 0 \<le> i \<and> i < int n then Inr (nat i)
      else if - int n \<le> i \<and> i < 0 then Inr (nat (i + int n))
      else Inl IndexError)"

definition tex_at :: "8 word arr2 \<Rightarrow> int \<Rightarrow> int \<Rightarrow> error + real" where
  "tex_at img vi ui =
     bind_err (np_index (rows img) vi) (\<lambda>i.
     bind_err (np_index (cols img) ui) (\<lambda>j.
       Inr (real (unat (cell img i j)) / 255)))"

text \<open>
  Lines 151 to 156: the source coordinates \<open>(u, v)\<close> of an in-disc pixel, as exact real
  numbers. The program computes them in double precision, so its \<^verbatim>\<open>u\<close> and \<^verbatim>\<open>v\<close> are
  close to these values and need not be equal to them.
\<close>

definition tex_lon :: "real \<Rightarrow> real \<Rightarrow> real" where
  "tex_lon xx yy = py_atan2 xx (sqrt (max 0 (1 - xx * xx - yy * yy)))"

definition tex_u :: "int \<Rightarrow> real \<Rightarrow> real \<Rightarrow> real" where
  "tex_u tw xx yy = (tex_lon xx yy + pi) / (2 * pi) * real_of_int (tw - 1)"

definition tex_v :: "int \<Rightarrow> real \<Rightarrow> real" where
  "tex_v th lat = (pi / 2 - lat) / pi * real_of_int (th - 1)"

text \<open>Line 157 applied to the exact coordinates: the integer sample position \<open>(ui, vi)\<close>.\<close>

definition sample_index :: "int \<Rightarrow> int \<Rightarrow> int \<Rightarrow> real \<Rightarrow> int \<Rightarrow> error + int \<times> int" where
  "sample_index disc_radius_px tw th yy dx =
     bind_err (py_div dx disc_radius_px) (\<lambda>xx.
     bind_err (py_asin yy) (\<lambda>lat.
       Inr (py_trunc (tex_u tw xx yy), py_trunc (tex_v th lat))))"

text \<open>
  The body of the inner loop (lines 149 to 158): \<open>None\<close> when the pixel is skipped,
  otherwise the value stored in the patch. The product with 65535 is taken exactly.
\<close>

definition disc_pixel :: "8 word arr2 \<Rightarrow> int \<Rightarrow> real \<Rightarrow> int \<Rightarrow> int \<Rightarrow> error + pixel option" where
  "disc_pixel img disc_radius_px yy dy dx =
     (if dx * dx + dy * dy > disc_radius_px\<^sup>2 then Inr None
      else bind_err (sample_index disc_radius_px (int (cols img)) (int (rows img)) yy dx)
             (\<lambda>(ui, vi). bind_err (tex_at img vi ui)
                (\<lambda>t. Inr (Some (word_of_int (py_trunc (t * 65535)))))))"

text \<open>
  Lines 157 and 158 alone, for coordinates \<open>u\<close> and \<open>v\<close> as the program has computed
  them. A double is a real number and \<^verbatim>\<open>int\<close> of a double is its exact truncation, so the
  two lines are modelled for every real \<open>u\<close> and \<open>v\<close>: no rounding of the arithmetic
  that produced them enters here.
\<close>

definition sample_pixel :: "8 word arr2 \<Rightarrow> real \<Rightarrow> real \<Rightarrow> error + pixel" where
  "sample_pixel img u v =
     (let ui = py_trunc u; vi = py_trunc v
      in bind_err (tex_at img vi ui) (\<lambda>t. Inr (word_of_int (py_trunc (t * 65535)))))"

fun disc_row ::
  "8 word arr2 \<Rightarrow> int \<Rightarrow> real \<Rightarrow> int \<Rightarrow> int list \<Rightarrow> (nat \<Rightarrow> nat \<Rightarrow> pixel)
     \<Rightarrow> error + (nat \<Rightarrow> nat \<Rightarrow> pixel)" where
  "disc_row img r yy dy [] d = Inr d"
| "disc_row img r yy dy (dx # dxs) d =
     bind_err (disc_pixel img r yy dy dx)
       (\<lambda>p. disc_row img r yy dy dxs
               (case p of None \<Rightarrow> d
                | Some v \<Rightarrow> (\<lambda>i j. if i = nat (dy + r) \<and> j = nat (dx + r) then v else d i j)))"

fun disc_rows ::
  "8 word arr2 \<Rightarrow> int \<Rightarrow> int list \<Rightarrow> (nat \<Rightarrow> nat \<Rightarrow> pixel) \<Rightarrow> error + (nat \<Rightarrow> nat \<Rightarrow> pixel)" where
  "disc_rows img r [] d = Inr d"
| "disc_rows img r (dy # dys) d =
     bind_err (py_div dy r)
       (\<lambda>yy. bind_err (disc_row img r yy dy [- r..r] d) (disc_rows img r dys))"

text \<open>\<^verbatim>\<open>np.zeros\<close> raises \<^verbatim>\<open>ValueError\<close> on a negative dimension.\<close>

definition map_texture_to_disc :: "8 word arr2 \<Rightarrow> int \<Rightarrow> error + pixel arr2" where
  "map_texture_to_disc img disc_radius_px =
     (let diam = disc_radius_px * 2 + 1
      in if diam < 0 then Inl ValueError
         else bind_err (disc_rows img disc_radius_px [- disc_radius_px..disc_radius_px] (\<lambda>i j. 0))
                (\<lambda>d. Inr \<lparr>rows = nat diam, cols = nat diam, cell = d\<rparr>))"

text \<open>A sample texture, one row of two samples: black on the left, white on the right.\<close>

definition tex_two :: "8 word arr2" where
  "tex_two = \<lparr>rows = 1, cols = 2, cell = (\<lambda>i j. if j = 0 then 0 else 255)\<rparr>"

text \<open>\<^verbatim>\<open>a[ya:yb, xa:xb]\<close> on an array that carries its shape.\<close>

definition slice2 :: "'a arr2 \<Rightarrow> int \<times> int \<Rightarrow> int \<times> int \<Rightarrow> 'a arr2" where
  "slice2 a ys xs =
     (let (ya, yb) = slice_bounds (int (rows a)) (fst ys) (snd ys);
          (xa, xb) = slice_bounds (int (cols a)) (fst xs) (snd xs)
      in \<lparr>rows = nat (yb - ya), cols = nat (xb - xa),
          cell = (\<lambda>i j. cell a (nat ya + i) (nat xa + j))\<rparr>)"

definition paste_disc :: "int \<Rightarrow> int \<Rightarrow> pixel arr2 \<Rightarrow> canvas \<Rightarrow> error + canvas" where
  "paste_disc cx cy disc canvas =
     (let r = (int (rows disc) - 1) div 2;
          y0 = cy - r; y1 = cy + r + 1;
          x0 = cx - r; x1 = cx + r + 1;
          sy0 = max 0 (- y0); sx0 = max 0 (- x0);
          sy1 = int (rows disc) - max 0 (y1 - HEIGHT);
          sx1 = int (cols disc) - max 0 (x1 - WIDTH);
          y0' = max y0 0; x0' = max x0 0;
          y1' = min y1 HEIGHT; x1' = min x1 WIDTH;
          sub_disc = slice2 disc (sy0, sy1) (sx0, sx1);
          msk = \<lparr>rows = rows sub_disc, cols = cols sub_disc,
                 cell = (\<lambda>i j. cell sub_disc i j > 0)\<rparr>
      in mask_store canvas (y0', y1') (x0', x1') msk (cell sub_disc))"

text \<open>
  A sample patch of side 3 (radius 1) with a zero centre, and a uniformly painted canvas.
\<close>

definition ring_disc :: "pixel arr2" where
  "ring_disc = \<lparr>rows = 3, cols = 3, cell = (\<lambda>i j. if i = 1 \<and> j = 1 then 0 else 500)\<rparr>"

definition flat :: "pixel \<Rightarrow> canvas" where
  "flat v = (\<lambda>y x. v)"

subsection \<open>Moons and their rings\<close>

text \<open>A moon is its name, its radius in km and its semi-major axis in km.\<close>

type_synonym moon = "string \<times> rat \<times> rat"

definition MOON_DATA :: "(planet \<times> moon list) list" where
  "MOON_DATA =
     [(Earth, [(''Moon'', 1737, 384400)]),
      (Mars, [(''Phobos'', 1127/100, 9377), (''Deimos'', 62/10, 23460)]),
      (Jupiter, [(''Io'', 1821, 421700), (''Europa'', 1560, 671034),
                 (''Ganymede'', 2634, 1070412), (''Callisto'', 2410, 1882709)]),
      (Saturn, [(''Titan'', 2575, 1221870), (''Rhea'', 764, 527108),
                (''Iapetus'', 735, 3560820), (''Dione'', 561, 377415)]),
      (Uranus, [(''Miranda'', 235, 129900), (''Ariel'', 578, 191020),
                (''Umbriel'', 584, 266000), (''Titania'', 788, 435910),
                (''Oberon'', 761, 583520)]),
      (Neptune, [(''Triton'', 1353, 354759), (''Proteus'', 210, 117647)]),
      (Pluto, [(''Charon'', 606, 19591)])]"

definition moon_a :: "moon \<Rightarrow> rat" where
  "moon_a m = snd (snd m)"

text \<open>Line 216 (and line 179 for Earth's Moon): the floor of 2 pixels, then the tripling.\<close>

definition moon_radius :: "rat \<Rightarrow> int" where
  "moon_radius r_km = max (py_round (r_km * scale)) 2 * 3"

definition moon_radius_px :: int where
  "moon_radius_px = max (py_round (1737 * scale)) 2 * 3"

definition moon_cx :: int where
  "moon_cx = centre_x Earth"

definition moon_cy :: int where
  "moon_cy =
     (let base_outer_earth = the (ring_high_outer Earth);
          moon_offset = base_outer_earth + 60 + base_outer_earth
      in centre_y Earth - moon_offset)"

definition base_outer_of :: "planet \<Rightarrow> int" where
  "base_outer_of planet = (if planet = Saturn then sat_out else the (ring_high_outer planet))"

definition moon_offset :: "int \<Rightarrow> rat \<Rightarrow> rat \<Rightarrow> rat" where
  "moon_offset base_outer max_a a_km =
     of_int base_outer + 60 + (a_km / max_a) * of_int base_outer"

text \<open>One iteration of the loop of line 215: the moon's name, centre and radius.\<close>

definition moon_place ::
  "int \<Rightarrow> int \<Rightarrow> int \<Rightarrow> rat \<Rightarrow> nat \<times> moon \<Rightarrow> string \<times> int \<times> int \<times> int" where
  "moon_place cxp cyp base_outer max_a im =
     (case im of (idx, m_name, r_km, a_km) \<Rightarrow>
        (let mr = moon_radius r_km;
             offset = moon_offset base_outer max_a a_km;
             my = cyp + (if idx mod 2 = 0 then - 1 else 1) * py_round offset;
             mx = cxp
         in (m_name, mx, my, mr)))"

text \<open>
  The placements of one planet's moons, in the order the loop visits them. \<^verbatim>\<open>max\<close> of
  an empty sequence raises \<^verbatim>\<open>ValueError\<close>, the division by a zero maximum
  \<^verbatim>\<open>ZeroDivisionError\<close>. \<^verbatim>\<open>sorted\<close> is stable, as \<open>sort_key\<close> is.
\<close>

definition moon_places ::
  "int \<Rightarrow> int \<Rightarrow> int \<Rightarrow> moon list \<Rightarrow> error + (string \<times> int \<times> int \<times> int) list" where
  "moon_places cxp cyp base_outer moons =
     (if moons = [] then Inl ValueError
      else (let max_a = Max (set (map moon_a moons))
            in if max_a = 0 then Inl ZeroDivisionError
               else Inr (map (moon_place cxp cyp base_outer max_a)
                           (enumerate 0 (sort_key moon_a moons)))))"

fun draw_moon_list ::
  "planet \<Rightarrow> (string \<times> int \<times> int \<times> int) list \<Rightarrow> canvas \<Rightarrow> error + canvas" where
  "draw_moon_list planet [] c = Inr c"
| "draw_moon_list planet ((m_name, mx, my, mr) # ms) c =
     bind_err (if \<not> (planet = Earth \<and> m_name = ''Moon'')
               then draw_circle mx my mr GRAY_PLANET c else Inr c)
       (\<lambda>c1. let r_in = mr + MOON_RING_OFF
              in bind_err (draw_annulus mx my r_in (r_in + MOON_RING_THICK) GRAY_ORBIT_RING c1)
                   (draw_moon_list planet ms))"

fun draw_moons :: "(planet \<times> moon list) list \<Rightarrow> canvas \<Rightarrow> error + canvas" where
  "draw_moons [] c = Inr c"
| "draw_moons ((planet, moons) # rest) c =
     bind_err (moon_places (centre_x planet) (centre_y planet) (base_outer_of planet) moons)
       (\<lambda>ps. bind_err (draw_moon_list planet ps c) (draw_moons rest))"

subsection \<open>Asteroid belt\<close>

definition belt_left_base :: int where
  "belt_left_base = centre_x_base Mars + the (ring_high_outer_base Mars) + 250"

definition belt_right_base :: int where
  "belt_right_base = centre_x_base Jupiter - ring_low_outer_base Jupiter - 250"

text \<open>Lines 231 to 234, as a function of the two baseline bounds.\<close>

definition belt_bounds :: "int \<Rightarrow> int \<Rightarrow> int \<times> int" where
  "belt_bounds left_base right_base =
     (let belt_left = left_base + BELT_LEFT_SHIFT;
          belt_right = right_base + BELT_RIGHT_SHIFT
      in (max 0 belt_left, min (WIDTH - 1) belt_right))"

definition belt_left :: int where
  "belt_left = fst (belt_bounds belt_left_base belt_right_base)"

definition belt_right :: int where
  "belt_right = snd (belt_bounds belt_left_base belt_right_base)"

text \<open>
  The pseudo-random generator is a parameter: \<open>rnd k\<close> is its \<open>k\<close>-th raw draw, and
  \<^verbatim>\<open>random.randint(lo, hi)\<close> reduces a draw into \<open>lo..hi\<close>, raising \<^verbatim>\<open>ValueError\<close> on an
  empty range. Every value of the range can occur.
\<close>

definition randint :: "(nat \<Rightarrow> nat) \<Rightarrow> nat \<Rightarrow> int \<Rightarrow> int \<Rightarrow> error + int" where
  "randint rnd k lo hi =
     (if hi < lo then Inl ValueError else Inr (lo + int (rnd k mod nat (hi - lo + 1))))"

text \<open>A sample sequence of raw draws, for the concrete runs below.\<close>

definition rnd_lin :: "nat \<Rightarrow> nat" where
  "rnd_lin k = 100 * k"

record belt =
  draws :: nat
  canvas_of :: canvas
  dwarf_ring_extents :: "(int \<times> int \<times> int) list"
  asteroids :: "(int \<times> int \<times> int) list"

definition dwarf_defs :: "(string \<times> rat) list" where
  "dwarf_defs = [(''Ceres'', 473), (''Vesta'', 262), (''Pallas'', 272), (''Hygiea'', 215)]"

definition core_r_of :: "rat \<Rightarrow> int" where
  "core_r_of r_km = max (py_round (r_km * scale)) 30"

text \<open>Lines 249 to 252: \<open>ok\<close> after the scan of the dwarf footprints.\<close>

definition dwarf_clear :: "int \<Rightarrow> int \<Rightarrow> int \<Rightarrow> (int \<times> int \<times> int) list \<Rightarrow> bool" where
  "dwarf_clear ax ay core_r exts =
     list_all (\<lambda>(ex, ey, eR).
        \<not> ((ax - ex)\<^sup>2 + (ay - ey)\<^sup>2 < (core_r + MOON_RING_OFF + MOON_RING_THICK + eR + 2)\<^sup>2)) exts"

text \<open>The \<^verbatim>\<open>while not placed and tries < 8000\<close> loop of one dwarf body.\<close>

function place_dwarf ::
  "(nat \<Rightarrow> nat) \<Rightarrow> int \<Rightarrow> int \<Rightarrow> int \<Rightarrow> nat \<Rightarrow> belt \<Rightarrow> error + belt" where
  "place_dwarf rnd bl br core_r tries st =
     (if tries < 8000 then
        (case randint rnd (draws st) bl br of
           Inl e \<Rightarrow> Inl e
         | Inr ax \<Rightarrow>
            (case randint rnd (draws st + 1) 0 (HEIGHT - 1) of
               Inl e \<Rightarrow> Inl e
             | Inr ay \<Rightarrow>
                if dwarf_clear ax ay core_r (dwarf_ring_extents st) then
                  (let r_in = core_r + MOON_RING_OFF
                   in bind_err (draw_circle ax ay core_r GRAY_ASTEROID (canvas_of st)) (\<lambda>c1.
                      bind_err (draw_annulus ax ay r_in (r_in + MOON_RING_THICK)
                                  GRAY_ORBIT_RING c1) (\<lambda>c2.
                        Inr (st\<lparr>draws := draws st + 2, canvas_of := c2,
                                dwarf_ring_extents :=
                                  dwarf_ring_extents st @ [(ax, ay, r_in + MOON_RING_THICK)],
                                asteroids := asteroids st @ [(ax, ay, core_r)]\<rparr>))))
                else place_dwarf rnd bl br core_r (tries + 1) (st\<lparr>draws := draws st + 2\<rparr>)))
      else Inr st)"
  by pat_completeness auto
termination
  by (relation "measure (\<lambda>(rnd, bl, br, core_r, tries, st). 8000 - tries)") auto

declare place_dwarf.simps [simp del]

fun place_dwarfs ::
  "(nat \<Rightarrow> nat) \<Rightarrow> int \<Rightarrow> int \<Rightarrow> (string \<times> rat) list \<Rightarrow> belt \<Rightarrow> error + belt" where
  "place_dwarfs rnd bl br [] st = Inr st"
| "place_dwarfs rnd bl br ((name, r_km) # ds) st =
     bind_err (place_dwarf rnd bl br (core_r_of r_km) 0 st) (place_dwarfs rnd bl br ds)"

text \<open>
  Lines 268 to 270: \<open>ok\<close> after the scan of \<^verbatim>\<open>asteroids\<close> (which holds the dwarf cores
  too).
\<close>

definition asteroid_clear :: "int \<Rightarrow> int \<Rightarrow> int \<Rightarrow> (int \<times> int \<times> int) list \<Rightarrow> bool" where
  "asteroid_clear ax ay r asts =
     list_all (\<lambda>(ax2, ay2, ar2). \<not> ((ax - ax2)\<^sup>2 + (ay - ay2)\<^sup>2 < (r + ar2 + 2)\<^sup>2)) asts"

text \<open>
  Lines 272 to 274 read the name \<^verbatim>\<open>y\<close>. At module level nothing binds it (it is a local
  of \<^verbatim>\<open>draw_circle\<close> and of \<^verbatim>\<open>draw_annulus\<close> only), so the lookup raises \<^verbatim>\<open>NameError\<close>.
\<close>

definition module_y :: "error + int" where
  "module_y = Inl NameError"

fun filler_dwarf_clear :: "int \<Rightarrow> int \<Rightarrow> (int \<times> int \<times> int) list \<Rightarrow> error + bool" where
  "filler_dwarf_clear ax r [] = Inr True"
| "filler_dwarf_clear ax r ((dx, dy, dr) # ds) =
     bind_err module_y (\<lambda>y.
       if (ax - dx)\<^sup>2 + (y - dy)\<^sup>2 < (r + dr + 2)\<^sup>2 then Inr False
       else filler_dwarf_clear ax r ds)"

text \<open>
  The \<^verbatim>\<open>while len(asteroids) < 200\<close> loop has no bound on its iterations: the model
  takes fuel, one unit for each iteration, and \<open>None\<close> is the loop still running when the
  fuel is spent.
\<close>

fun fill_belt :: "nat \<Rightarrow> (nat \<Rightarrow> nat) \<Rightarrow> int \<Rightarrow> int \<Rightarrow> belt \<Rightarrow> (error + belt) option" where
  "fill_belt fuel rnd bl br st =
     (if length (asteroids st) < 200 then
        (case fuel of
           0 \<Rightarrow> None
         | Suc n \<Rightarrow>
            (case randint rnd (draws st) 8 15 of
               Inl e \<Rightarrow> Some (Inl e)
             | Inr r \<Rightarrow>
                (case randint rnd (draws st + 1) bl br of
                   Inl e \<Rightarrow> Some (Inl e)
                 | Inr ax \<Rightarrow>
                    (case randint rnd (draws st + 2) 0 (HEIGHT - 1) of
                       Inl e \<Rightarrow> Some (Inl e)
                     | Inr ay \<Rightarrow>
                        if asteroid_clear ax ay r (asteroids st) then
                          (case filler_dwarf_clear ax r (dwarf_ring_extents st) of
                             Inl e \<Rightarrow> Some (Inl e)
                           | Inr ok \<Rightarrow>
                              if ok then
                                (case draw_circle ax ay r GRAY_ASTEROID (canvas_of st) of
                                   Inl e \<Rightarrow> Some (Inl e)
                                 | Inr c1 \<Rightarrow>
                                    fill_belt n rnd bl br
                                      (st\<lparr>draws := draws st + 3, canvas_of := c1,
                                          asteroids := asteroids st @ [(ax, ay, r)]\<rparr>))
                              else fill_belt n rnd bl br (st\<lparr>draws := draws st + 3\<rparr>))
                        else fill_belt n rnd bl br (st\<lparr>draws := draws st + 3\<rparr>)))))
      else Some (Inr st))"

declare fill_belt.simps [simp del]

definition belt_start :: "canvas \<Rightarrow> belt" where
  "belt_start c = \<lparr>draws = 0, canvas_of = c, dwarf_ring_extents = [], asteroids = []\<rparr>"

definition populate_belt ::
  "nat \<Rightarrow> (nat \<Rightarrow> nat) \<Rightarrow> int \<Rightarrow> int \<Rightarrow> canvas \<Rightarrow> (error + belt) option" where
  "populate_belt fuel rnd bl br c =
     (case place_dwarfs rnd bl br dwarf_defs (belt_start c) of
        Inl e \<Rightarrow> Some (Inl e)
      | Inr st \<Rightarrow> fill_belt fuel rnd bl br st)"

section \<open>Properties\<close>

subsection \<open>Rasteriser: clipping\<close>

lemma slice_bounds_box:
  assumes "0 \<le> a" "b \<le> n" "a < b"
  shows "slice_bounds n a b = (a, b)"
  using assms by (simp add: slice_bounds_def slice_clip_def)

text \<open>
  A store through a mask built over the clipped bounding box \<open>[y0, y1] \<times> [x0, x1]\<close>
  never raises, whether the box is empty or not.
\<close>

lemma mask_store_box:
  assumes x0: "0 \<le> x0" and x1: "x1 \<le> WIDTH - 1" and y0: "0 \<le> y0" and y1: "y1 \<le> HEIGHT - 1"
  shows "mask_store c (y0, y1 + 1) (x0, x1 + 1)
           \<lparr>rows = arange_len y0 (y1 + 1), cols = arange_len x0 (x1 + 1),
            cell = (\<lambda>i j. P (arange_at x0 j) (arange_at y0 i))\<rparr> (\<lambda>i j. val)
         = Inr (\<lambda>y x. if y0 \<le> y \<and> y \<le> y1 \<and> x0 \<le> x \<and> x \<le> x1 \<and> P x y then val else c y x)"
proof (cases "y0 \<le> y1 \<and> x0 \<le> x1")
  case True
  then have sy: "slice_bounds HEIGHT y0 (y1 + 1) = (y0, y1 + 1)"
    and sx: "slice_bounds WIDTH x0 (x1 + 1) = (x0, x1 + 1)"
    using assms by (simp_all add: slice_bounds_box)
  have "(\<lambda>y x. if y0 \<le> y \<and> y < y1 + 1 \<and> x0 \<le> x \<and> x < x1 + 1
                  \<and> P (arange_at x0 (nat (x - x0))) (arange_at y0 (nat (y - y0)))
               then val else c y x)
        = (\<lambda>y x. if y0 \<le> y \<and> y \<le> y1 \<and> x0 \<le> x \<and> x \<le> x1 \<and> P x y then val else c y x)"
    by (intro ext) (auto simp: arange_at_def)
  with True show ?thesis
    by (simp add: mask_store_def sy sx arange_len_def)
next
  case False
  then have empty: "arange_len y0 (y1 + 1) = 0 \<or> arange_len x0 (x1 + 1) = 0"
    by (auto simp: arange_len_def)
  have rows_ok: "arange_len y0 (y1 + 1) \<noteq> 0 \<Longrightarrow>
      int (arange_len y0 (y1 + 1))
        = snd (slice_bounds HEIGHT y0 (y1 + 1)) - fst (slice_bounds HEIGHT y0 (y1 + 1))"
    using assms by (simp add: arange_len_def slice_bounds_box)
  have cols_ok: "arange_len x0 (x1 + 1) \<noteq> 0 \<Longrightarrow>
      int (arange_len x0 (x1 + 1))
        = snd (slice_bounds WIDTH x0 (x1 + 1)) - fst (slice_bounds WIDTH x0 (x1 + 1))"
    using assms by (simp add: arange_len_def slice_bounds_box)
  have "(\<lambda>y x. if y0 \<le> y \<and> y \<le> y1 \<and> x0 \<le> x \<and> x \<le> x1 \<and> P x y then val else c y x) = c"
    using False by (intro ext) auto
  then show ?thesis
    using empty rows_ok cols_ok
    by (auto simp: mask_store_def split_beta Let_def)
qed

lemma sq_sum_bound:
  fixes a b r :: int
  assumes "0 \<le> r" "a\<^sup>2 + b\<^sup>2 \<le> r\<^sup>2"
  shows "- r \<le> a \<and> a \<le> r"
proof -
  have "a\<^sup>2 \<le> r\<^sup>2"
    using assms(2) by (smt (verit) zero_le_power2)
  then have "\<bar>a\<bar> \<le> r"
    using assms(1) by (simp add: power2_le_iff_abs_le)
  then show ?thesis by auto
qed

lemma in_disk_box:
  assumes "in_disk cx cy r x y" "0 \<le> r"
  shows "cx - r \<le> x \<and> x \<le> cx + r \<and> cy - r \<le> y \<and> y \<le> cy + r"
  using assms sq_sum_bound[of r "x - cx" "y - cy"] sq_sum_bound[of r "y - cy" "x - cx"]
  by (simp add: in_disk_def add.commute)

lemma in_annulus_box:
  assumes "in_annulus cx cy r_in r_out x y" "0 \<le> r_out"
  shows "cx - r_out \<le> x \<and> x \<le> cx + r_out \<and> cy - r_out \<le> y \<and> y \<le> cy + r_out"
  using assms in_disk_box[of cx cy r_out x y]
  by (simp add: in_annulus_def in_disk_def Let_def)

lemma draw_circle_eq:
  "draw_circle cx cy r val c =
     Inr (\<lambda>y x. if 0 \<le> y \<and> y < HEIGHT \<and> 0 \<le> x \<and> x < WIDTH \<and> 0 \<le> r \<and> in_disk cx cy r x y
                 then val else c y x)"
proof -
  have "(\<lambda>y x. if max 0 (cy - r) \<le> y \<and> y \<le> min (HEIGHT - 1) (cy + r)
                   \<and> max 0 (cx - r) \<le> x \<and> x \<le> min (WIDTH - 1) (cx + r) \<and> in_disk cx cy r x y
                then val else c y x)
      = (\<lambda>y x. if 0 \<le> y \<and> y < HEIGHT \<and> 0 \<le> x \<and> x < WIDTH \<and> 0 \<le> r \<and> in_disk cx cy r x y
                 then val else c y x)"
  proof (intro ext)
    fix y x
    show "(if max 0 (cy - r) \<le> y \<and> y \<le> min (HEIGHT - 1) (cy + r)
                   \<and> max 0 (cx - r) \<le> x \<and> x \<le> min (WIDTH - 1) (cx + r) \<and> in_disk cx cy r x y
                then val else c y x)
      = (if 0 \<le> y \<and> y < HEIGHT \<and> 0 \<le> x \<and> x < WIDTH \<and> 0 \<le> r \<and> in_disk cx cy r x y
                 then val else c y x)"
      using in_disk_box[of cx cy r x y] by auto
  qed
  then show ?thesis
    unfolding draw_circle_def Let_def
    by (subst mask_store_box) simp_all
qed

lemma draw_annulus_eq:
  "draw_annulus cx cy r_in r_out val c =
     Inr (\<lambda>y x. if 0 \<le> y \<and> y < HEIGHT \<and> 0 \<le> x \<and> x < WIDTH \<and> 0 \<le> r_out
                    \<and> in_annulus cx cy r_in r_out x y
                 then val else c y x)"
proof -
  have "(\<lambda>y x. if max 0 (cy - r_out) \<le> y \<and> y \<le> min (HEIGHT - 1) (cy + r_out)
                   \<and> max 0 (cx - r_out) \<le> x \<and> x \<le> min (WIDTH - 1) (cx + r_out)
                   \<and> in_annulus cx cy r_in r_out x y
                then val else c y x)
      = (\<lambda>y x. if 0 \<le> y \<and> y < HEIGHT \<and> 0 \<le> x \<and> x < WIDTH \<and> 0 \<le> r_out
                    \<and> in_annulus cx cy r_in r_out x y
                 then val else c y x)"
  proof (intro ext)
    fix y x
    show "(if max 0 (cy - r_out) \<le> y \<and> y \<le> min (HEIGHT - 1) (cy + r_out)
                   \<and> max 0 (cx - r_out) \<le> x \<and> x \<le> min (WIDTH - 1) (cx + r_out)
                   \<and> in_annulus cx cy r_in r_out x y
                then val else c y x)
      = (if 0 \<le> y \<and> y < HEIGHT \<and> 0 \<le> x \<and> x < WIDTH \<and> 0 \<le> r_out
                    \<and> in_annulus cx cy r_in r_out x y
                 then val else c y x)"
      using in_annulus_box[of cx cy r_in r_out x y] by auto
  qed
  then show ?thesis
    unfolding draw_annulus_def Let_def
    by (subst mask_store_box) simp_all
qed

text \<open>
  Claim C7. For every centre, radius, value and canvas, \<open>draw_circle\<close> and
  \<open>draw_annulus\<close> return a canvas (they do not raise); the pixels that change are
  exactly the pixels inside the canvas that satisfy the distance condition, so nothing
  outside the canvas is written; and a disk whose bounding box lies entirely outside the
  canvas leaves the canvas as it was.
\<close>

theorem draw_clipping:
  "(\<exists>c'. draw_circle cx cy r val c = Inr c'
      \<and> (\<forall>y x. c' y x =
            (if 0 \<le> y \<and> y < HEIGHT \<and> 0 \<le> x \<and> x < WIDTH \<and> 0 \<le> r \<and> in_disk cx cy r x y
             then val else c y x))
      \<and> (cx + r < 0 \<or> WIDTH \<le> cx - r \<or> cy + r < 0 \<or> HEIGHT \<le> cy - r \<longrightarrow> c' = c))
   \<and> (\<exists>c'. draw_annulus ax ay r_in r_out aval ac = Inr c'
      \<and> (\<forall>y x. c' y x =
            (if 0 \<le> y \<and> y < HEIGHT \<and> 0 \<le> x \<and> x < WIDTH \<and> 0 \<le> r_out
                \<and> in_annulus ax ay r_in r_out x y
             then aval else ac y x)))"
proof -
  have "(\<lambda>y x. if 0 \<le> y \<and> y < HEIGHT \<and> 0 \<le> x \<and> x < WIDTH \<and> 0 \<le> r \<and> in_disk cx cy r x y
               then val else c y x) = c"
    if out: "cx + r < 0 \<or> WIDTH \<le> cx - r \<or> cy + r < 0 \<or> HEIGHT \<le> cy - r"
  proof (intro ext)
    fix y x
    show "(if 0 \<le> y \<and> y < HEIGHT \<and> 0 \<le> x \<and> x < WIDTH \<and> 0 \<le> r \<and> in_disk cx cy r x y
           then val else c y x) = c y x"
      using out in_disk_box[of cx cy r x y] by auto
  qed
  then show ?thesis
    by (simp add: draw_circle_eq draw_annulus_eq)
qed

theorem draw_clipping_witness:
  "draw_circle (- 100) 50 10 GRAY_PLANET blank = Inr blank
   \<and> (\<exists>c'. draw_annulus 3 3 5 10 GRAY_SAT_RING blank = Inr c'
        \<and> c' 0 10 = GRAY_SAT_RING \<and> c' 3 3 = 0 \<and> c' (- 1) 10 = 0)"
proof -
  from draw_clipping[of "- 100" 50 10 GRAY_PLANET blank 3 3 5 10 GRAY_SAT_RING]
  obtain c1 c2 where
    c1: "draw_circle (- 100) 50 10 GRAY_PLANET blank = Inr c1"
      "- 100 + 10 < (0::int) \<or> WIDTH \<le> - 100 - 10 \<or> 50 + 10 < (0::int) \<or> HEIGHT \<le> 50 - 10
         \<longrightarrow> c1 = blank"
    and c2: "draw_annulus 3 3 5 10 GRAY_SAT_RING blank = Inr c2"
      "\<forall>y x. c2 y x =
         (if 0 \<le> y \<and> y < HEIGHT \<and> 0 \<le> x \<and> x < WIDTH \<and> (0::int) \<le> 10 \<and> in_annulus 3 3 5 10 x y
          then GRAY_SAT_RING else blank y x)"
    by blast
  have "c1 = blank" using c1(2) by simp
  moreover have "c2 0 10 = GRAY_SAT_RING" "c2 3 3 = 0" "c2 (- 1) 10 = 0"
    by (simp_all add: c2(2) in_annulus_def HEIGHT_def WIDTH_def blank_def)
  ultimately show ?thesis using c1(1) c2(1) by simp
qed

subsection \<open>Belt populator: the dwarf loop\<close>

lemma randint_range:
  assumes "randint rnd k lo hi = Inr v"
  shows "lo \<le> v \<and> v \<le> hi"
proof -
  have le: "lo \<le> hi"
    using assms by (simp add: randint_def split: if_splits)
  then have pos: "0 < nat (hi - lo + 1)" by simp
  have "rnd k mod nat (hi - lo + 1) < nat (hi - lo + 1)"
    using pos by (rule mod_less_divisor)
  then have "int (rnd k mod nat (hi - lo + 1)) < hi - lo + 1"
    using le by linarith
  moreover have "v = lo + int (rnd k mod nat (hi - lo + 1))"
    using assms le by (simp add: randint_def)
  ultimately show ?thesis by simp
qed

lemma randint_total:
  assumes "lo \<le> hi"
  shows "\<exists>v. randint rnd k lo hi = Inr v"
  using assms by (simp add: randint_def)

lemma randint_empty:
  assumes "hi < lo"
  shows "randint rnd k lo hi = Inl ValueError"
  using assms by (simp add: randint_def)

lemma place_dwarf_stop:
  "\<not> tries < 8000 \<Longrightarrow> place_dwarf rnd bl br cr tries st = Inr st"
  by (subst place_dwarf.simps[of rnd bl br cr tries st]) simp

lemma place_dwarf_raise1:
  "tries < 8000 \<Longrightarrow> randint rnd (draws st) bl br = Inl e \<Longrightarrow>
   place_dwarf rnd bl br cr tries st = Inl e"
  by (subst place_dwarf.simps[of rnd bl br cr tries st]) simp

lemma place_dwarf_raise2:
  "tries < 8000 \<Longrightarrow> randint rnd (draws st) bl br = Inr ax \<Longrightarrow>
   randint rnd (draws st + 1) 0 (HEIGHT - 1) = Inl e \<Longrightarrow>
   place_dwarf rnd bl br cr tries st = Inl e"
  by (subst place_dwarf.simps[of rnd bl br cr tries st]) simp

lemma place_dwarf_retry:
  "tries < 8000 \<Longrightarrow> randint rnd (draws st) bl br = Inr ax \<Longrightarrow>
   randint rnd (draws st + 1) 0 (HEIGHT - 1) = Inr ay \<Longrightarrow>
   \<not> dwarf_clear ax ay cr (dwarf_ring_extents st) \<Longrightarrow>
   place_dwarf rnd bl br cr tries st
     = place_dwarf rnd bl br cr (tries + 1) (st\<lparr>draws := draws st + 2\<rparr>)"
  by (subst place_dwarf.simps[of rnd bl br cr tries st]) simp

lemma place_dwarf_accept:
  "tries < 8000 \<Longrightarrow> randint rnd (draws st) bl br = Inr ax \<Longrightarrow>
   randint rnd (draws st + 1) 0 (HEIGHT - 1) = Inr ay \<Longrightarrow>
   dwarf_clear ax ay cr (dwarf_ring_extents st) \<Longrightarrow>
   \<exists>st'. place_dwarf rnd bl br cr tries st = Inr st'
      \<and> draws st' = draws st + 2
      \<and> dwarf_ring_extents st' =
                 dwarf_ring_extents st @ [(ax, ay, cr + MOON_RING_OFF + MOON_RING_THICK)]
      \<and> asteroids st' = asteroids st @ [(ax, ay, cr)]"
  by (subst place_dwarf.simps[of rnd bl br cr tries st])
     (simp add: Let_def bind_err_def draw_circle_eq draw_annulus_eq)

lemma place_dwarf_sound:
  assumes "place_dwarf rnd bl br cr tries st = Inr st'"
  shows "(asteroids st' = asteroids st \<and> dwarf_ring_extents st' = dwarf_ring_extents st)
       \<or> (\<exists>ax ay. bl \<le> ax \<and> ax \<le> br \<and> 0 \<le> ay \<and> ay \<le> HEIGHT - 1
            \<and> dwarf_clear ax ay cr (dwarf_ring_extents st)
            \<and> asteroids st' = asteroids st @ [(ax, ay, cr)]
            \<and> dwarf_ring_extents st'
                = dwarf_ring_extents st @ [(ax, ay, cr + MOON_RING_OFF + MOON_RING_THICK)])"
  using assms
proof (induction rnd bl br cr tries st rule: place_dwarf.induct)
  case (1 rnd bl br cr tries st)
  show ?case
  proof (cases "tries < 8000")
    case False
    then show ?thesis using "1.prems" by (simp add: place_dwarf_stop)
  next
    case True
    have "\<exists>ax. randint rnd (draws st) bl br = Inr ax"
    proof (cases "randint rnd (draws st) bl br")
      case (Inl e)
      from place_dwarf_raise1[OF True Inl, of cr] "1.prems" show ?thesis by simp
    next
      case (Inr v)
      then show ?thesis by simp
    qed
    then obtain ax where ax: "randint rnd (draws st) bl br = Inr ax" ..
    have "\<exists>ay. randint rnd (draws st + 1) 0 (HEIGHT - 1) = Inr ay"
    proof (cases "randint rnd (draws st + 1) 0 (HEIGHT - 1)")
      case (Inl e)
      from place_dwarf_raise2[OF True ax Inl, of cr] "1.prems" show ?thesis by simp
    next
      case (Inr v)
      then show ?thesis by simp
    qed
    then obtain ay where ay: "randint rnd (draws st + 1) 0 (HEIGHT - 1) = Inr ay" ..
    show ?thesis
    proof (cases "dwarf_clear ax ay cr (dwarf_ring_extents st)")
      case False
      have "place_dwarf rnd bl br cr (tries + 1) (st\<lparr>draws := draws st + 2\<rparr>) = Inr st'"
        using "1.prems" place_dwarf_retry[OF True ax ay False] by simp
      from "1.IH"[OF True ax ay False this] show ?thesis by simp
    next
      case clear: True
      from place_dwarf_accept[OF True ax ay clear] "1.prems"
      have "asteroids st' = asteroids st @ [(ax, ay, cr)]"
        "dwarf_ring_extents st' = dwarf_ring_extents st @ [(ax, ay, cr + MOON_RING_OFF + MOON_RING_THICK)]"
        by auto
      with clear randint_range[OF ax] randint_range[OF ay] show ?thesis by blast
    qed
  qed
qed

lemma place_dwarf_total:
  assumes "bl \<le> br"
  shows "\<exists>st'. place_dwarf rnd bl br cr tries st = Inr st'"
  using assms
proof (induction rnd bl br cr tries st rule: place_dwarf.induct)
  case (1 rnd bl br cr tries st)
  show ?case
  proof (cases "tries < 8000")
    case False
    then show ?thesis by (simp add: place_dwarf_stop)
  next
    case True
    obtain ax where ax: "randint rnd (draws st) bl br = Inr ax"
      using randint_total[OF "1.prems", of rnd "draws st"] by auto
    obtain ay where ay: "randint rnd (draws st + 1) 0 (HEIGHT - 1) = Inr ay"
      using randint_total[of 0 "HEIGHT - 1" rnd "draws st + 1"] by (auto simp: HEIGHT_def)
    show ?thesis
    proof (cases "dwarf_clear ax ay cr (dwarf_ring_extents st)")
      case False
      from "1.IH"[OF True ax ay False "1.prems"] place_dwarf_retry[OF True ax ay False]
      show ?thesis by simp
    next
      case clear: True
      from place_dwarf_accept[OF True ax ay clear] show ?thesis by blast
    qed
  qed
qed

lemma place_dwarf_first:
  assumes "bl \<le> br" "dwarf_ring_extents st = []"
  shows "\<exists>st'. place_dwarf rnd bl br cr 0 st = Inr st'
      \<and> draws st' = draws st + 2
      \<and> dwarf_ring_extents st' =
           [(bl + int (rnd (draws st) mod nat (br - bl + 1)),
             int (rnd (draws st + 1) mod 8192), cr + MOON_RING_OFF + MOON_RING_THICK)]
      \<and> asteroids st' = asteroids st @
           [(bl + int (rnd (draws st) mod nat (br - bl + 1)),
             int (rnd (draws st + 1) mod 8192), cr)]"
proof -
  have ax: "randint rnd (draws st) bl br = Inr (bl + int (rnd (draws st) mod nat (br - bl + 1)))"
    using assms(1) by (simp add: randint_def)
  have ay: "randint rnd (draws st + 1) 0 (HEIGHT - 1) = Inr (int (rnd (draws st + 1) mod 8192))"
    by (simp add: randint_def HEIGHT_def)
  have clear: "dwarf_clear (bl + int (rnd (draws st) mod nat (br - bl + 1)))
      (int (rnd (draws st + 1) mod 8192)) cr (dwarf_ring_extents st)"
    by (simp add: dwarf_clear_def assms(2))
  have t: "(0::nat) < 8000" by simp
  from place_dwarf_accept[OF t ax ay clear] show ?thesis
    by (simp add: assms(2))
qed

lemma place_dwarf_empty_band:
  assumes "br < bl"
  shows "place_dwarf rnd bl br cr 0 st = Inl ValueError"
  using place_dwarf_raise1[of 0 rnd st bl br ValueError cr] randint_empty[OF assms]
  by simp

lemma place_dwarfs_total:
  assumes "bl \<le> br"
  shows "\<exists>st'. place_dwarfs rnd bl br ds st = Inr st'"
proof (induction ds arbitrary: st)
  case Nil
  show ?case by simp
next
  case (Cons d ds)
  obtain name r_km where d: "d = (name, r_km)" by (cases d)
  obtain st1 where "place_dwarf rnd bl br (core_r_of r_km) 0 st = Inr st1"
    using place_dwarf_total[OF assms] by blast
  then show ?case using Cons.IH[of st1] by (simp add: d bind_err_def)
qed

lemma place_dwarfs_sound:
  assumes "place_dwarfs rnd bl br ds st = Inr st'"
  shows "\<exists>new. asteroids st' = asteroids st @ new
           \<and> dwarf_ring_extents st' =
                dwarf_ring_extents st
                  @ map (\<lambda>(ax, ay, r). (ax, ay, r + MOON_RING_OFF + MOON_RING_THICK)) new
           \<and> length new \<le> length ds
           \<and> (\<forall>(ax, ay, r) \<in> set new. bl \<le> ax \<and> ax \<le> br \<and> 0 \<le> ay \<and> ay \<le> HEIGHT - 1
                 \<and> r \<in> core_r_of ` snd ` set ds)"
  using assms
proof (induction ds arbitrary: st)
  case Nil
  then show ?case by simp
next
  case (Cons d ds)
  obtain name r_km where d: "d = (name, r_km)" by (cases d)
  from Cons.prems obtain st1 where
    s1: "place_dwarf rnd bl br (core_r_of r_km) 0 st = Inr st1" and
    s2: "place_dwarfs rnd bl br ds st1 = Inr st'"
    by (cases "place_dwarf rnd bl br (core_r_of r_km) 0 st") (auto simp: d bind_err_def)
  from Cons.IH[OF s2] obtain new where new:
    "asteroids st' = asteroids st1 @ new"
    "dwarf_ring_extents st' = dwarf_ring_extents st1
        @ map (\<lambda>(ax, ay, r). (ax, ay, r + MOON_RING_OFF + MOON_RING_THICK)) new"
    "length new \<le> length ds"
    "\<forall>(ax, ay, r) \<in> set new. bl \<le> ax \<and> ax \<le> br \<and> 0 \<le> ay \<and> ay \<le> HEIGHT - 1
                 \<and> r \<in> core_r_of ` snd ` set ds"
    by blast
  from place_dwarf_sound[OF s1] show ?case
  proof
    assume same: "asteroids st1 = asteroids st \<and> dwarf_ring_extents st1 = dwarf_ring_extents st"
    show ?thesis
      apply (rule exI[of _ new])
      using new same by (auto simp: d)
  next
    assume "\<exists>ax ay. bl \<le> ax \<and> ax \<le> br \<and> 0 \<le> ay \<and> ay \<le> HEIGHT - 1
            \<and> dwarf_clear ax ay (core_r_of r_km) (dwarf_ring_extents st)
            \<and> asteroids st1 = asteroids st @ [(ax, ay, core_r_of r_km)]
            \<and> dwarf_ring_extents st1
                = dwarf_ring_extents st @ [(ax, ay, core_r_of r_km + MOON_RING_OFF + MOON_RING_THICK)]"
    then obtain ax ay where a: "bl \<le> ax" "ax \<le> br" "0 \<le> ay" "ay \<le> HEIGHT - 1"
      "asteroids st1 = asteroids st @ [(ax, ay, core_r_of r_km)]"
      "dwarf_ring_extents st1
                = dwarf_ring_extents st @ [(ax, ay, core_r_of r_km + MOON_RING_OFF + MOON_RING_THICK)]"
      by blast
    show ?thesis
      apply (rule exI[of _ "(ax, ay, core_r_of r_km) # new"])
      using new a by (auto simp: d)
  qed
qed

lemma dwarf_core_30:
  "core_r_of 473 = 30" "core_r_of 262 = 30" "core_r_of 272 = 30" "core_r_of 215 = 30"
  by code_simp+

lemma place_dwarf_try0:
  assumes "bl \<le> br"
    and "dwarf_clear (bl + int (rnd (draws st) mod nat (br - bl + 1)))
            (int (rnd (draws st + 1) mod 8192)) cr (dwarf_ring_extents st)"
  shows "\<exists>st'. place_dwarf rnd bl br cr 0 st = Inr st'
      \<and> draws st' = draws st + 2
      \<and> dwarf_ring_extents st' = dwarf_ring_extents st @
           [(bl + int (rnd (draws st) mod nat (br - bl + 1)),
             int (rnd (draws st + 1) mod 8192), cr + MOON_RING_OFF + MOON_RING_THICK)]
      \<and> asteroids st' = asteroids st @
           [(bl + int (rnd (draws st) mod nat (br - bl + 1)),
             int (rnd (draws st + 1) mod 8192), cr)]"
proof -
  have ax: "randint rnd (draws st) bl br = Inr (bl + int (rnd (draws st) mod nat (br - bl + 1)))"
    using assms(1) by (simp add: randint_def)
  have ay: "randint rnd (draws st + 1) 0 (HEIGHT - 1) = Inr (int (rnd (draws st + 1) mod 8192))"
    by (simp add: randint_def HEIGHT_def)
  have t: "(0::nat) < 8000" by simp
  from place_dwarf_accept[OF t ax ay assms(2)] show ?thesis .
qed

lemma sq_plus_numeral_not_neg: "\<not> numeral k + (a::int)\<^sup>2 < 0"
proof -
  have "0 \<le> a\<^sup>2" by simp
  moreover have "(0::int) < numeral k" by simp
  ultimately show ?thesis by linarith
qed

lemma dwarfs_rnd_lin:
  assumes "bl \<le> br"
  shows "\<exists>st. place_dwarfs rnd_lin bl br dwarf_defs (belt_start c) = Inr st
     \<and> draws st = 8
     \<and> asteroids st =
         [(bl, 100, 30),
          (bl + int (200 mod nat (br - bl + 1)), 300, 30),
          (bl + int (400 mod nat (br - bl + 1)), 500, 30),
          (bl + int (600 mod nat (br - bl + 1)), 700, 30)]
     \<and> dwarf_ring_extents st =
         [(bl, 100, 40),
          (bl + int (200 mod nat (br - bl + 1)), 300, 40),
          (bl + int (400 mod nat (br - bl + 1)), 500, 40),
          (bl + int (600 mod nat (br - bl + 1)), 700, 40)]"
proof -
  let ?w = "nat (br - bl + 1)"
  note cs = dwarf_clear_def rnd_lin_def MOON_RING_OFF_def MOON_RING_THICK_def
    sq_plus_numeral_not_neg
  have "\<exists>s1. place_dwarf rnd_lin bl br 30 0 (belt_start c) = Inr s1
    \<and> draws s1 = 2 \<and> dwarf_ring_extents s1 = [(bl, 100, 40)]
    \<and> asteroids s1 = [(bl, 100, 30)]"
    using place_dwarf_try0[OF assms, of rnd_lin "belt_start c" 30]
    by (simp add: belt_start_def cs numeral_2_eq_2)
  then obtain s1 where s1: "place_dwarf rnd_lin bl br 30 0 (belt_start c) = Inr s1"
    "draws s1 = 2" "dwarf_ring_extents s1 = [(bl, 100, 40)]"
    "asteroids s1 = [(bl, 100, 30)]"
    by blast
  have "\<exists>s2. place_dwarf rnd_lin bl br 30 0 s1 = Inr s2 \<and> draws s2 = 4
    \<and> dwarf_ring_extents s2 = [(bl, 100, 40), (bl + int (200 mod ?w), 300, 40)]
    \<and> asteroids s2 = [(bl, 100, 30), (bl + int (200 mod ?w), 300, 30)]"
    using place_dwarf_try0[OF assms, of rnd_lin s1 30]
    by (simp add: s1 cs)
  then obtain s2 where s2: "place_dwarf rnd_lin bl br 30 0 s1 = Inr s2"
    "draws s2 = 4"
    "dwarf_ring_extents s2 = [(bl, 100, 40), (bl + int (200 mod ?w), 300, 40)]"
    "asteroids s2 = [(bl, 100, 30), (bl + int (200 mod ?w), 300, 30)]"
    by blast
  have "\<exists>s3. place_dwarf rnd_lin bl br 30 0 s2 = Inr s3 \<and> draws s3 = 6
    \<and> dwarf_ring_extents s3 = [(bl, 100, 40), (bl + int (200 mod ?w), 300, 40),
        (bl + int (400 mod ?w), 500, 40)]
    \<and> asteroids s3 = [(bl, 100, 30), (bl + int (200 mod ?w), 300, 30),
        (bl + int (400 mod ?w), 500, 30)]"
    using place_dwarf_try0[OF assms, of rnd_lin s2 30]
    by (simp add: s2 cs)
  then obtain s3 where s3: "place_dwarf rnd_lin bl br 30 0 s2 = Inr s3"
    "draws s3 = 6"
    "dwarf_ring_extents s3 = [(bl, 100, 40), (bl + int (200 mod ?w), 300, 40),
        (bl + int (400 mod ?w), 500, 40)]"
    "asteroids s3 = [(bl, 100, 30), (bl + int (200 mod ?w), 300, 30),
        (bl + int (400 mod ?w), 500, 30)]"
    by blast
  have "\<exists>s4. place_dwarf rnd_lin bl br 30 0 s3 = Inr s4 \<and> draws s4 = 8
    \<and> dwarf_ring_extents s4 = [(bl, 100, 40), (bl + int (200 mod ?w), 300, 40),
        (bl + int (400 mod ?w), 500, 40), (bl + int (600 mod ?w), 700, 40)]
    \<and> asteroids s4 = [(bl, 100, 30), (bl + int (200 mod ?w), 300, 30),
        (bl + int (400 mod ?w), 500, 30), (bl + int (600 mod ?w), 700, 30)]"
    using place_dwarf_try0[OF assms, of rnd_lin s3 30]
    by (simp add: s3 cs)
  then obtain s4 where s4: "place_dwarf rnd_lin bl br 30 0 s3 = Inr s4"
    "draws s4 = 8"
    "dwarf_ring_extents s4 = [(bl, 100, 40), (bl + int (200 mod ?w), 300, 40),
        (bl + int (400 mod ?w), 500, 40), (bl + int (600 mod ?w), 700, 40)]"
    "asteroids s4 = [(bl, 100, 30), (bl + int (200 mod ?w), 300, 30),
        (bl + int (400 mod ?w), 500, 30), (bl + int (600 mod ?w), 700, 30)]"
    by blast
  have "place_dwarfs rnd_lin bl br dwarf_defs (belt_start c) = Inr s4"
    by (simp add: dwarf_defs_def dwarf_core_30 bind_err_def s1 s2 s3 s4)
  then show ?thesis using s4 by simp
qed



subsection \<open>Belt populator: the filler loop\<close>

lemma fill_belt_done:
  "\<not> length (asteroids st) < 200 \<Longrightarrow> fill_belt fuel rnd bl br st = Some (Inr st)"
  by (subst fill_belt.simps[of fuel rnd bl br st]) simp

lemma filler_dwarf_clear_raises:
  "ds \<noteq> [] \<Longrightarrow> filler_dwarf_clear ax r ds = Inl NameError"
  by (cases ds) (auto simp: module_y_def bind_err_def)

lemma fill_belt_raises:
  assumes "length (asteroids st) < 200"
    and "randint rnd (draws st) 8 15 = Inr r"
    and "randint rnd (draws st + 1) bl br = Inr ax"
    and "randint rnd (draws st + 2) 0 (HEIGHT - 1) = Inr ay"
    and "asteroid_clear ax ay r (asteroids st)"
    and "dwarf_ring_extents st \<noteq> []"
  shows "fill_belt (Suc n) rnd bl br st = Some (Inl NameError)"
  using assms
  by (subst fill_belt.simps[of "Suc n" rnd bl br st]) (simp add: filler_dwarf_clear_raises)

lemma fill_belt_never:
  assumes "dwarf_ring_extents st \<noteq> []" "length (asteroids st) < 200"
  shows "fill_belt fuel rnd bl br st \<noteq> Some (Inr st')"
  using assms
proof (induction fuel arbitrary: st)
  case 0
  then show ?case by (subst fill_belt.simps[of 0 rnd bl br st]) simp
next
  case (Suc n)
  have step: "fill_belt n rnd bl br (st\<lparr>draws := draws st + 3\<rparr>) \<noteq> Some (Inr st')"
    using Suc.IH[of "st\<lparr>draws := draws st + 3\<rparr>"] Suc.prems by simp
  show ?case
    using Suc.prems step
    by (subst fill_belt.simps[of "Suc n" rnd bl br st])
       (auto simp: filler_dwarf_clear_raises split: sum.splits)
qed

lemma populate_belt_never:
  "populate_belt fuel rnd bl br c \<noteq> Some (Inr st')"
proof (cases "bl \<le> br")
  case False
  then have "place_dwarf rnd bl br (core_r_of 473) 0 (belt_start c) = Inl ValueError"
    using place_dwarf_empty_band[of br bl] by simp
  then show ?thesis
    by (simp add: populate_belt_def dwarf_defs_def bind_err_def)
next
  case True
  obtain s1 where s1: "place_dwarf rnd bl br (core_r_of 473) 0 (belt_start c) = Inr s1"
    "dwarf_ring_extents s1 \<noteq> []" "length (asteroids s1) = 1"
    using place_dwarf_first[OF True, of "belt_start c" rnd "core_r_of 473"]
    by (auto simp: belt_start_def)
  obtain st where st: "place_dwarfs rnd bl br (tl dwarf_defs) s1 = Inr st"
    using place_dwarfs_total[OF True] by blast
  from place_dwarfs_sound[OF st] s1 have inv: "dwarf_ring_extents st \<noteq> []" "length (asteroids st) < 200"
    by (auto simp: dwarf_defs_def)
  have "populate_belt fuel rnd bl br c = fill_belt fuel rnd bl br st"
    using s1(1) st by (simp add: populate_belt_def dwarf_defs_def bind_err_def)
  then show ?thesis using fill_belt_never[OF inv] by simp
qed

lemma belt_bounds_values: "belt_left = 5531" "belt_right = 7231"
  by code_simp+

subsection \<open>Belt populator: the collision check of the fillers\<close>

text \<open>
  Claim C1. Every filler asteroid is to be checked against the earlier asteroids and
  against every dwarf footprint. The check against the dwarf footprints cannot be
  carried out: on the program's belt band \<open>[5531, 7231]\<close>, with the draws \<open>rnd_lin\<close>, the
  four dwarf bodies are placed, the first filler candidate (radius 8 at (6431, 1000))
  is clear of all of them, and the scan of the dwarf footprints raises \<^verbatim>\<open>NameError\<close> at
  the unbound name \<^verbatim>\<open>y\<close>. Lemma \<open>populate_belt_never\<close> above shows that no run of the
  belt populator returns a finished belt, whatever the draws and the band.
\<close>

theorem belt_run_raises:
  "populate_belt 1 rnd_lin belt_left belt_right blank = Some (Inl NameError)"
proof -
  have le: "(5531::int) \<le> 7231" by simp
  from dwarfs_rnd_lin[OF le, of blank] obtain st where
    st: "place_dwarfs rnd_lin 5531 7231 dwarf_defs (belt_start blank) = Inr st"
      "draws st = 8"
      "asteroids st = [(5531, 100, 30), (5731, 300, 30), (5931, 500, 30), (6131, 700, 30)]"
      "dwarf_ring_extents st \<noteq> []"
    by auto
  have "fill_belt (Suc 0) rnd_lin 5531 7231 st = Some (Inl NameError)"
  proof (rule fill_belt_raises[where r = 8 and ax = 6431 and ay = 1000])
    show "length (asteroids st) < 200" by (simp add: st)
    show "randint rnd_lin (draws st) 8 15 = Inr 8"
      by (simp add: st randint_def rnd_lin_def)
    show "randint rnd_lin (draws st + 1) 5531 7231 = Inr 6431"
      by (simp add: st randint_def rnd_lin_def)
    show "randint rnd_lin (draws st + 2) 0 (HEIGHT - 1) = Inr 1000"
      by (simp add: st randint_def rnd_lin_def HEIGHT_def)
    show "asteroid_clear 6431 1000 8 (asteroids st)"
      by (simp add: st asteroid_clear_def)
    show "dwarf_ring_extents st \<noteq> []" by (rule st)
  qed
  then show ?thesis
    by (simp add: populate_belt_def belt_bounds_values st)
qed

subsection \<open>Dwarf radii\<close>

text \<open>
  Claim C9. Each of the four dwarf bodies (473, 262, 272 and 215 km) scales to fewer
  than 30 pixels, so its radius is the floor, 30. Whatever the draws and the band, every
  dwarf body that the loop places has radius 30 (not tripled) and ring extent 40, and at
  most four are placed.
\<close>

theorem dwarf_radii_fixed:
  "(\<forall>(name, r_km) \<in> set dwarf_defs. py_round (r_km * scale) < 30 \<and> core_r_of r_km = 30)
   \<and> (place_dwarfs rnd bl br dwarf_defs (belt_start c) = Inr st \<longrightarrow>
        (\<forall>(ax, ay, r) \<in> set (asteroids st). r = 30)
        \<and> (\<forall>(ex, ey, eR) \<in> set (dwarf_ring_extents st). eR = 40)
        \<and> length (asteroids st) \<le> 4)"
proof -
  have core: "\<forall>(name, r_km) \<in> set dwarf_defs. py_round (r_km * scale) < 30 \<and> core_r_of r_km = 30"
    by code_simp
  have img: "core_r_of ` snd ` set dwarf_defs = {30}"
    by (simp add: dwarf_defs_def dwarf_core_30)
  have "(\<forall>(ax, ay, r) \<in> set (asteroids st). r = 30)
        \<and> (\<forall>(ex, ey, eR) \<in> set (dwarf_ring_extents st). eR = 40)
        \<and> length (asteroids st) \<le> 4"
    if run: "place_dwarfs rnd bl br dwarf_defs (belt_start c) = Inr st"
  proof -
    from place_dwarfs_sound[OF run] obtain new where new:
      "asteroids st = asteroids (belt_start c) @ new"
      "dwarf_ring_extents st = dwarf_ring_extents (belt_start c)
         @ map (\<lambda>(ax, ay, r). (ax, ay, r + MOON_RING_OFF + MOON_RING_THICK)) new"
      "length new \<le> length dwarf_defs"
      "\<forall>(ax, ay, r) \<in> set new. bl \<le> ax \<and> ax \<le> br \<and> 0 \<le> ay \<and> ay \<le> HEIGHT - 1
                 \<and> r \<in> core_r_of ` snd ` set dwarf_defs"
      by blast
    have r30: "\<forall>(ax, ay, r) \<in> set new. r = 30"
      using new(4) unfolding img by auto
    have a: "asteroids st = new"
      and e: "dwarf_ring_extents st
         = map (\<lambda>(ax, ay, r). (ax, ay, r + MOON_RING_OFF + MOON_RING_THICK)) new"
      using new(1,2) by (simp_all add: belt_start_def)
    have "\<forall>(ex, ey, eR) \<in> set (dwarf_ring_extents st). eR = 40"
      using r30 unfolding e by (auto simp: MOON_RING_OFF_def MOON_RING_THICK_def)
    then show ?thesis using r30 a new(3) by (simp add: dwarf_defs_def)
  qed
  with core show ?thesis by blast
qed

theorem dwarf_radii_fixed_witness:
  "\<exists>st. place_dwarfs rnd_lin 5531 7231 dwarf_defs (belt_start blank) = Inr st
     \<and> length (asteroids st) = 4
     \<and> list_all (\<lambda>(ax, ay, r). r = 30) (asteroids st)"
proof -
  have le: "(5531::int) \<le> 7231" by simp
  from dwarfs_rnd_lin[OF le, of blank] obtain st where
    st: "place_dwarfs rnd_lin 5531 7231 dwarf_defs (belt_start blank) = Inr st"
      "length (asteroids st) = 4"
    by auto
  from dwarf_radii_fixed[of rnd_lin 5531 7231 blank st] st(1)
  have "\<forall>(ax, ay, r) \<in> set (asteroids st). r = 30" by blast
  then have "list_all (\<lambda>(ax, ay, r). r = 30) (asteroids st)"
    by (simp add: list_all_iff)
  with st show ?thesis by blast
qed

subsection \<open>Belt bounds and the dwarf loop on a narrow band\<close>




subsection \<open>Radii\<close>

lemma moon_places_nth:
  assumes "moon_places cxp cyp bo ms = Inr ps"
  shows "length ps = length ms
    \<and> ms \<noteq> [] \<and> Max (set (map moon_a ms)) \<noteq> 0
    \<and> (\<forall>i < length ms.
          ps ! i = moon_place cxp cyp bo (Max (set (map moon_a ms))) (i, sort_key moon_a ms ! i))"
proof -
  from assms have ne: "ms \<noteq> []" and mx: "Max (set (map moon_a ms)) \<noteq> 0"
    and ps: "ps = map (moon_place cxp cyp bo (Max (set (map moon_a ms))))
                    (enumerate 0 (sort_key moon_a ms))"
    by (auto simp: moon_places_def Let_def split: if_splits)
  have "length ps = length ms" by (simp add: ps)
  moreover have "ps ! i = moon_place cxp cyp bo (Max (set (map moon_a ms))) (i, sort_key moon_a ms ! i)"
    if "i < length ms" for i
    using that by (simp add: ps nth_enumerate_eq)
  ultimately show ?thesis using ne mx by blast
qed

lemma moon_place_radius:
  "moon_place cxp cyp bo mx (i, n, r_km, a) = (n', x, y, r) \<Longrightarrow>
     r = moon_radius r_km \<and> n' = n \<and> x = cxp"
  by (auto simp: moon_place_def Let_def)

text \<open>
  Claim C4. Every planet's base and final radius is positive, and a rocky planet's final
  radius is three times its base radius. Every moon's radius is three times the floored
  radius \<open>max (round (r_km * scale)) 2\<close>, hence positive, and that is the radius of each
  placement the moon loop makes. With scale 150/6371, the 2440 km body has base radius
  57 and final radius 171.
\<close>

theorem radius_override:
  "(\<forall>p \<in> set planets. 0 < radius_base p \<and> 0 < radius_px p
       \<and> (p \<in> ROCKY \<longrightarrow> radius_px p = 3 * radius_base p))
   \<and> (0 < moon_radius r_km \<and> moon_radius r_km = 3 * max (py_round (r_km * scale)) 2)
   \<and> (moon_places cxp cyp bo ms = Inr ps \<longrightarrow>
        map (\<lambda>(n, x, y, r). r) ps
          = map (\<lambda>(n, r_km, a). 3 * max (py_round (r_km * scale)) 2) (sort_key moon_a ms))
   \<and> moon_radius_px = 3 * max (py_round (1737 * scale)) 2 \<and> 0 < moon_radius_px
   \<and> scale = 150 / 6371 \<and> py_round (2440 * (150 / 6371)) = 57
   \<and> radius_base Mercury = 57 \<and> radius_px Mercury = 171"
proof -
  have planets_ok: "\<forall>p \<in> set planets. 0 < radius_base p \<and> 0 < radius_px p
       \<and> (p \<in> ROCKY \<longrightarrow> radius_px p = 3 * radius_base p)"
    by code_simp
  have moon_ok: "0 < moon_radius r_km \<and> moon_radius r_km = 3 * max (py_round (r_km * scale)) 2"
    by (simp add: moon_radius_def)
  have placed_ok: "moon_places cxp cyp bo ms = Inr ps \<longrightarrow>
        map (\<lambda>(n, x, y, r). r) ps
          = map (\<lambda>(n, r_km, a). 3 * max (py_round (r_km * scale)) 2) (sort_key moon_a ms)"
  proof
    assume run: "moon_places cxp cyp bo ms = Inr ps"
    note nth = moon_places_nth[OF run]
    show "map (\<lambda>(n, x, y, r). r) ps
          = map (\<lambda>(n, r_km, a). 3 * max (py_round (r_km * scale)) 2) (sort_key moon_a ms)"
    proof (rule nth_equalityI)
      show "length (map (\<lambda>(n, x, y, r). r) ps)
          = length (map (\<lambda>(n, r_km, a). 3 * max (py_round (r_km * scale)) 2) (sort_key moon_a ms))"
        using nth by simp
    next
      fix i assume "i < length (map (\<lambda>(n, x, y, r). r) ps)"
      then have i: "i < length ms" using nth by simp
      obtain n r_km a where m: "sort_key moon_a ms ! i = (n, r_km, a)"
        by (cases "sort_key moon_a ms ! i")
      have "ps ! i = moon_place cxp cyp bo (Max (set (map moon_a ms))) (i, n, r_km, a)"
        using nth i m by simp
      then show "map (\<lambda>(n, x, y, r). r) ps ! i
          = map (\<lambda>(n, r_km, a). 3 * max (py_round (r_km * scale)) 2) (sort_key moon_a ms) ! i"
        using i nth m by (simp add: moon_place_def Let_def moon_radius_def)
    qed
  qed
  have rest: "moon_radius_px = 3 * max (py_round (1737 * scale)) 2 \<and> 0 < moon_radius_px
      \<and> scale = 150 / 6371 \<and> py_round (2440 * (150 / 6371)) = 57
      \<and> radius_base Mercury = 57 \<and> radius_px Mercury = 171"
    by code_simp
  show ?thesis
    by (rule conjI[OF planets_ok conjI[OF moon_ok conjI[OF placed_ok rest]]])
qed

theorem radius_override_witness:
  "Mercury \<in> set planets \<and> Mercury \<in> ROCKY
   \<and> radius_px Mercury = 3 * radius_base Mercury \<and> 0 < radius_px Mercury
   \<and> radius_base Mercury = 57
   \<and> moon_places 3276 4096 516 [(''Moon'', 1737, 384400)] = Inr [(''Moon'', 3276, 3004, 123)]
   \<and> 3 * max (py_round (1737 * scale)) 2 = 123"
proof -
  have m: "Mercury \<in> set planets" "Mercury \<in> ROCKY"
    by (simp_all add: planets_def ROCKY_def)
  have run: "moon_places 3276 4096 516 [(''Moon'', 1737, 384400)] = Inr [(''Moon'', 3276, 3004, 123)]"
    by code_simp
  from radius_override[of 1737 3276 4096 516 "[(''Moon'', 1737, 384400)]"
      "[(''Moon'', 3276, 3004, 123)]"] run
  have "\<forall>p \<in> set planets. 0 < radius_base p \<and> 0 < radius_px p
       \<and> (p \<in> ROCKY \<longrightarrow> radius_px p = 3 * radius_base p)"
    "radius_base Mercury = 57"
    "3 * max (py_round (1737 * scale)) 2 = 123"
    by simp_all
  with m run show ?thesis by blast
qed

subsection \<open>Rings\<close>





subsection \<open>Texture projector\<close>

lemma py_trunc_bounds:
  assumes "0 \<le> x" "x \<le> real_of_int n"
  shows "0 \<le> py_trunc x \<and> py_trunc x \<le> n \<and> py_trunc x = \<lfloor>x\<rfloor>"
proof -
  have "py_trunc x = \<lfloor>x\<rfloor>" using assms(1) by (simp add: py_trunc_def)
  moreover have "0 \<le> \<lfloor>x\<rfloor>" using assms(1) by simp
  moreover have "\<lfloor>x\<rfloor> \<le> n" using assms(2) by (simp add: floor_le_iff)
  ultimately show ?thesis by simp
qed

lemma py_atan2_bounds:
  assumes "0 \<le> z"
  shows "- (pi / 2) \<le> py_atan2 x z \<and> py_atan2 x z \<le> pi / 2"
proof (cases "0 < z")
  case True
  then show ?thesis
    using arctan_lbound[of "x / z"] arctan_ubound[of "x / z"]
    by (simp add: py_atan2_def)
next
  case False
  then have "z = 0" using assms by simp
  then show ?thesis
    using pi_ge_zero by (simp add: py_atan2_def)
qed

lemma tex_lon_bounds:
  "- (pi / 2) \<le> tex_lon xx yy \<and> tex_lon xx yy \<le> pi / 2"
  unfolding tex_lon_def by (rule py_atan2_bounds) simp

lemma unit_interval_scale:
  fixes t :: real
  assumes "0 \<le> t" "t \<le> 1" "1 \<le> n"
  shows "0 \<le> t * real_of_int (n - 1) \<and> t * real_of_int (n - 1) \<le> real_of_int (n - 1)"
proof -
  have n: "0 \<le> real_of_int (n - 1)" using assms(3) by simp
  have "t * real_of_int (n - 1) \<le> 1 * real_of_int (n - 1)"
    using assms(2) n by (rule mult_right_mono)
  then show ?thesis using assms(1) n by simp
qed

lemma tex_u_bounds:
  assumes "1 \<le> tw"
  shows "0 \<le> tex_u tw xx yy \<and> tex_u tw xx yy \<le> real_of_int (tw - 1)"
proof -
  have "0 \<le> (tex_lon xx yy + pi) / (2 * pi)" "(tex_lon xx yy + pi) / (2 * pi) \<le> 1"
    using tex_lon_bounds[of xx yy] pi_gt_zero by (simp_all add: field_simps)
  then show ?thesis
    unfolding tex_u_def using assms by (rule unit_interval_scale)
qed

lemma tex_v_bounds:
  assumes "1 \<le> th" "- (pi / 2) \<le> lat" "lat \<le> pi / 2"
  shows "0 \<le> tex_v th lat \<and> tex_v th lat \<le> real_of_int (th - 1)"
proof -
  have "0 \<le> (pi / 2 - lat) / pi" "(pi / 2 - lat) / pi \<le> 1"
    using assms(2,3) pi_gt_zero by (simp_all add: field_simps)
  then show ?thesis
    unfolding tex_v_def using assms(1) by (rule unit_interval_scale)
qed

lemma in_disc_ratio:
  fixes dx dy r :: int
  assumes "dx * dx + dy * dy \<le> r\<^sup>2" "1 \<le> r"
  shows "- 1 \<le> real_of_int dy / real_of_int r \<and> real_of_int dy / real_of_int r \<le> 1"
proof -
  have "dy\<^sup>2 + dx\<^sup>2 \<le> r\<^sup>2"
    using assms(1) by (simp add: power2_eq_square add.commute)
  then have "- r \<le> dy \<and> dy \<le> r"
    using assms(2) sq_sum_bound[of r dy dx] by simp
  then have "- real_of_int r \<le> real_of_int dy" "real_of_int dy \<le> real_of_int r"
    by linarith+
  moreover have "0 < real_of_int r" using assms(2) by simp
  ultimately show ?thesis by (simp add: field_simps)
qed

lemma np_index_in_range:
  assumes "0 \<le> i" "i \<le> int n - 1"
  shows "np_index n i = Inr (nat i)"
  using assms by (simp add: np_index_def)

lemma sample_index_in_disc:
  assumes disk: "dx * dx + dy * dy \<le> r\<^sup>2" and r: "1 \<le> r" and th: "1 \<le> th" and tw: "1 \<le> tw"
  shows "sample_index r tw th (real_of_int dy / real_of_int r) dx
           = Inr (\<lfloor>tex_u tw (real_of_int dx / real_of_int r) (real_of_int dy / real_of_int r)\<rfloor>,
                  \<lfloor>tex_v th (arcsin (real_of_int dy / real_of_int r))\<rfloor>)"
    and "0 \<le> \<lfloor>tex_u tw (real_of_int dx / real_of_int r) (real_of_int dy / real_of_int r)\<rfloor>"
    and "\<lfloor>tex_u tw (real_of_int dx / real_of_int r) (real_of_int dy / real_of_int r)\<rfloor> \<le> tw - 1"
    and "0 \<le> \<lfloor>tex_v th (arcsin (real_of_int dy / real_of_int r))\<rfloor>"
    and "\<lfloor>tex_v th (arcsin (real_of_int dy / real_of_int r))\<rfloor> \<le> th - 1"
proof -
  let ?xx = "real_of_int dx / real_of_int r" and ?yy = "real_of_int dy / real_of_int r"
  note yy = in_disc_ratio[OF disk r]
  have lat: "- (pi / 2) \<le> arcsin ?yy" "arcsin ?yy \<le> pi / 2"
    by (rule arcsin_lbound[OF yy[THEN conjunct1] yy[THEN conjunct2]])
       (rule arcsin_ubound[OF yy[THEN conjunct1] yy[THEN conjunct2]])
  note u = py_trunc_bounds[OF tex_u_bounds[OF tw, of ?xx ?yy, THEN conjunct1]
      tex_u_bounds[OF tw, of ?xx ?yy, THEN conjunct2]]
  note v = py_trunc_bounds[OF tex_v_bounds[OF th lat, THEN conjunct1]
      tex_v_bounds[OF th lat, THEN conjunct2]]
  have r0: "r \<noteq> 0" using r by simp
  show "sample_index r tw th ?yy dx = Inr (\<lfloor>tex_u tw ?xx ?yy\<rfloor>, \<lfloor>tex_v th (arcsin ?yy)\<rfloor>)"
    using yy r0
    by (simp add: sample_index_def py_div_def py_asin_def bind_err_def
          u[THEN conjunct2, THEN conjunct2] v[THEN conjunct2, THEN conjunct2])
  have ue: "py_trunc (tex_u tw ?xx ?yy) = \<lfloor>tex_u tw ?xx ?yy\<rfloor>"
    by (rule u[THEN conjunct2, THEN conjunct2])
  have ve: "py_trunc (tex_v th (arcsin ?yy)) = \<lfloor>tex_v th (arcsin ?yy)\<rfloor>"
    by (rule v[THEN conjunct2, THEN conjunct2])
  show "0 \<le> \<lfloor>tex_u tw ?xx ?yy\<rfloor>"
    using u[THEN conjunct1] unfolding ue .
  show "\<lfloor>tex_u tw ?xx ?yy\<rfloor> \<le> tw - 1"
    using u[THEN conjunct2, THEN conjunct1] unfolding ue .
  show "0 \<le> \<lfloor>tex_v th (arcsin ?yy)\<rfloor>"
    using v[THEN conjunct1] unfolding ve .
  show "\<lfloor>tex_v th (arcsin ?yy)\<rfloor> \<le> th - 1"
    using v[THEN conjunct2, THEN conjunct1] unfolding ve .
qed

lemma tex_at_in_range:
  assumes "0 \<le> vi" "vi \<le> int (rows img) - 1" "0 \<le> ui" "ui \<le> int (cols img) - 1"
  shows "tex_at img vi ui = Inr (real (unat (cell img (nat vi) (nat ui))) / 255)"
  using assms by (simp add: tex_at_def np_index_in_range bind_err_def)



text \<open>In the loop body, lines 157 and 158 are applied to the coordinates of lines 151 to 156.\<close>

lemma disc_pixel_sample_pixel:
  "disc_pixel img r yy dy dx =
     (if dx * dx + dy * dy > r\<^sup>2 then Inr None
      else bind_err (py_div dx r) (\<lambda>xx.
           bind_err (py_asin yy) (\<lambda>lat.
           bind_err (sample_pixel img (tex_u (int (cols img)) xx yy) (tex_v (int (rows img)) lat))
             (\<lambda>p. Inr (Some p)))))"
  by (auto simp: disc_pixel_def sample_index_def sample_pixel_def bind_err_def Let_def
        split: sum.splits)


lemma map_texture_radius_zero: "map_texture_to_disc img 0 = Inl ZeroDivisionError"
  by (simp add: map_texture_to_disc_def py_div_def bind_err_def)

text \<open>
  Claim C10. For an in-disc pixel of a disc of radius at least 1 and a source image with
  at least one row and one column: the argument of the square root is not negative, the
  longitude and the latitude lie in \<open>[-\<pi>/2, \<pi>/2]\<close>, \<^verbatim>\<open>math.asin\<close> does not raise, the
  sample indices satisfy \<open>0 \<le> ui \<le> tw - 1\<close> and \<open>0 \<le> vi \<le> th - 1\<close>, and the read of the
  source image succeeds at exactly these indices (no wrap-around, no \<^verbatim>\<open>IndexError\<close>).
  With radius 0 the projector raises \<^verbatim>\<open>ZeroDivisionError\<close> before any read.
\<close>

theorem texture_read_in_bounds:
  assumes "dx * dx + dy * dy \<le> r\<^sup>2" and "1 \<le> rows img" and "1 \<le> cols img"
  shows "(r = 0 \<longrightarrow> map_texture_to_disc img r = Inl ZeroDivisionError)
    \<and> (1 \<le> r \<longrightarrow>
         (0::real) \<le> max 0 (1 - (real_of_int dx / real_of_int r) * (real_of_int dx / real_of_int r)
                            - (real_of_int dy / real_of_int r) * (real_of_int dy / real_of_int r))
         \<and> - (pi / 2) \<le> tex_lon (real_of_int dx / real_of_int r) (real_of_int dy / real_of_int r)
         \<and> tex_lon (real_of_int dx / real_of_int r) (real_of_int dy / real_of_int r) \<le> pi / 2
         \<and> py_asin (real_of_int dy / real_of_int r) = Inr (arcsin (real_of_int dy / real_of_int r))
         \<and> - (pi / 2) \<le> arcsin (real_of_int dy / real_of_int r)
         \<and> arcsin (real_of_int dy / real_of_int r) \<le> pi / 2
         \<and> (\<exists>ui vi. sample_index r (int (cols img)) (int (rows img))
                        (real_of_int dy / real_of_int r) dx = Inr (ui, vi)
               \<and> 0 \<le> ui \<and> ui \<le> int (cols img) - 1 \<and> 0 \<le> vi \<and> vi \<le> int (rows img) - 1
               \<and> np_index (rows img) vi = Inr (nat vi) \<and> np_index (cols img) ui = Inr (nat ui)
               \<and> tex_at img vi ui = Inr (real (unat (cell img (nat vi) (nat ui))) / 255)))"
proof (intro conjI impI)
  assume "r = 0"
  then show "map_texture_to_disc img r = Inl ZeroDivisionError"
    by (simp add: map_texture_radius_zero)
next
  assume r: "1 \<le> r"
  let ?xx = "real_of_int dx / real_of_int r" and ?yy = "real_of_int dy / real_of_int r"
  show "(0::real) \<le> max 0 (1 - ?xx * ?xx - ?yy * ?yy)" by simp
  show "- (pi / 2) \<le> tex_lon ?xx ?yy" "tex_lon ?xx ?yy \<le> pi / 2"
    using tex_lon_bounds[of ?xx ?yy] by simp_all
  note yy = in_disc_ratio[OF assms(1) r]
  show "py_asin ?yy = Inr (arcsin ?yy)"
    using yy by (simp add: py_asin_def)
  show "- (pi / 2) \<le> arcsin ?yy"
    by (rule arcsin_lbound[OF yy[THEN conjunct1] yy[THEN conjunct2]])
  show "arcsin ?yy \<le> pi / 2"
    by (rule arcsin_ubound[OF yy[THEN conjunct1] yy[THEN conjunct2]])
  have th': "1 \<le> int (rows img)" and tw': "1 \<le> int (cols img)"
    using assms(2,3) by simp_all
  note s = sample_index_in_disc[OF assms(1) r th' tw']
  show "\<exists>ui vi. sample_index r (int (cols img)) (int (rows img)) ?yy dx = Inr (ui, vi)
               \<and> 0 \<le> ui \<and> ui \<le> int (cols img) - 1 \<and> 0 \<le> vi \<and> vi \<le> int (rows img) - 1
               \<and> np_index (rows img) vi = Inr (nat vi) \<and> np_index (cols img) ui = Inr (nat ui)
               \<and> tex_at img vi ui = Inr (real (unat (cell img (nat vi) (nat ui))) / 255)"
    using s np_index_in_range[OF s(4) s(5)] np_index_in_range[OF s(2) s(3)]
      tex_at_in_range[OF s(4) s(5) s(2) s(3)]
    by blast
qed

theorem texture_read_in_bounds_witness:
  "(1::int) * 1 + 0 * 0 \<le> 1\<^sup>2 \<and> 1 \<le> rows tex_two \<and> 1 \<le> cols tex_two
   \<and> (\<exists>ui vi. sample_index 1 2 1 0 1 = Inr (ui, vi) \<and> 0 \<le> ui \<and> ui \<le> 1 \<and> vi = 0
         \<and> tex_at tex_two vi ui = Inr (real (unat (cell tex_two (nat vi) (nat ui))) / 255))"
proof -
  have h: "(1::int) * 1 + 0 * 0 \<le> 1\<^sup>2" "1 \<le> rows tex_two" "1 \<le> cols tex_two"
    by (simp_all add: tex_two_def)
  from texture_read_in_bounds[OF h]
  have "\<exists>ui vi. sample_index 1 (int (cols tex_two)) (int (rows tex_two))
                        (real_of_int 0 / real_of_int 1) 1 = Inr (ui, vi)
               \<and> 0 \<le> ui \<and> ui \<le> int (cols tex_two) - 1 \<and> 0 \<le> vi \<and> vi \<le> int (rows tex_two) - 1
               \<and> np_index (rows tex_two) vi = Inr (nat vi) \<and> np_index (cols tex_two) ui = Inr (nat ui)
               \<and> tex_at tex_two vi ui = Inr (real (unat (cell tex_two (nat vi) (nat ui))) / 255)"
    by simp
  then obtain ui vi where
    "sample_index 1 (int (cols tex_two)) (int (rows tex_two)) (real_of_int 0 / real_of_int 1) 1
       = Inr (ui, vi)"
    "0 \<le> ui" "ui \<le> int (cols tex_two) - 1" "0 \<le> vi" "vi \<le> int (rows tex_two) - 1"
    "tex_at tex_two vi ui = Inr (real (unat (cell tex_two (nat vi) (nat ui))) / 255)"
    by blast
  then have "sample_index 1 2 1 0 1 = Inr (ui, vi) \<and> 0 \<le> ui \<and> ui \<le> 1 \<and> vi = 0
         \<and> tex_at tex_two vi ui = Inr (real (unat (cell tex_two (nat vi) (nat ui))) / 255)"
    by (simp add: tex_two_def)
  then show ?thesis using h by blast
qed




subsection \<open>Compositing a texture patch\<close>

lemma paste_axis_overlap:
  fixes c r n :: int
  assumes "0 \<le> r" "0 < n" "c - r < n" "0 \<le> c + r"
  shows "slice_bounds (2 * r + 1) (max 0 (- (c - r))) (2 * r + 1 - max 0 (c + r + 1 - n))
           = (max 0 (r - c), min (2 * r + 1) (n - c + r))"
    and "slice_bounds n (max (c - r) 0) (min (c + r + 1) n) = (max (c - r) 0, min (c + r + 1) n)"
  using assms by (auto simp: slice_bounds_def slice_clip_def Let_def)

lemma paste_axis_apart:
  fixes c r n :: int
  assumes "0 \<le> r" "0 < n" "\<not> (c - r < n \<and> 0 \<le> c + r)"
  shows "snd (slice_bounds (2 * r + 1) (max 0 (- (c - r))) (2 * r + 1 - max 0 (c + r + 1 - n)))
           = fst (slice_bounds (2 * r + 1) (max 0 (- (c - r))) (2 * r + 1 - max 0 (c + r + 1 - n)))
         \<or> snd (slice_bounds n (max (c - r) 0) (min (c + r + 1) n))
           = fst (slice_bounds n (max (c - r) 0) (min (c + r + 1) n))"
  using assms by (auto simp: slice_bounds_def slice_clip_def Let_def)

lemma slice_bounds_ordered: "fst (slice_bounds n a b) \<le> snd (slice_bounds n a b)"
  by (simp add: slice_bounds_def Let_def)

lemma paste_disc_unfold:
  fixes cx cy r :: int
  assumes sq: "rows disc = nat (2 * r + 1)" "cols disc = nat (2 * r + 1)" and r: "0 \<le> r"
  defines "sy \<equiv> slice_bounds (2 * r + 1) (max 0 (- (cy - r))) (2 * r + 1 - max 0 (cy + r + 1 - HEIGHT))"
    and "sx \<equiv> slice_bounds (2 * r + 1) (max 0 (- (cx - r))) (2 * r + 1 - max 0 (cx + r + 1 - WIDTH))"
    and "vy \<equiv> slice_bounds HEIGHT (max (cy - r) 0) (min (cy + r + 1) HEIGHT)"
    and "vx \<equiv> slice_bounds WIDTH (max (cx - r) 0) (min (cx + r + 1) WIDTH)"
  shows "paste_disc cx cy disc c =
     (if (snd sy \<noteq> fst sy \<and> snd sy - fst sy \<noteq> snd vy - fst vy)
         \<or> (snd sx \<noteq> fst sx \<and> snd sx - fst sx \<noteq> snd vx - fst vx) then Inl IndexError
      else if snd sy = fst sy \<or> snd sx = fst sx then Inr c
      else Inr (\<lambda>y x. if fst vy \<le> y \<and> y < snd vy \<and> fst vx \<le> x \<and> x < snd vx
                          \<and> 0 < cell disc (nat (fst sy) + nat (y - fst vy))
                                           (nat (fst sx) + nat (x - fst vx))
                       then cell disc (nat (fst sy) + nat (y - fst vy))
                                      (nat (fst sx) + nat (x - fst vx))
                       else c y x))"
proof -
  have rd1: "(int (rows disc) - 1) div 2 = r"
    using sq r by simp
  have rd2: "int (rows disc) = 2 * r + 1" "int (cols disc) = 2 * r + 1"
    using sq r by simp_all
  have oy: "fst sy \<le> snd sy" and ox: "fst sx \<le> snd sx"
    unfolding sy_def sx_def by (rule slice_bounds_ordered)+
  have ny: "nat (snd sy - fst sy) = 0 \<longleftrightarrow> snd sy = fst sy"
    and nx: "nat (snd sx - fst sx) = 0 \<longleftrightarrow> snd sx = fst sx"
    and iy: "int (nat (snd sy - fst sy)) = snd sy - fst sy"
    and ix: "int (nat (snd sx - fst sx)) = snd sx - fst sx"
    using oy ox by auto
  show ?thesis
    unfolding paste_disc_def Let_def
    unfolding rd1
    unfolding rd2 mask_store_def slice2_def split_beta fst_conv snd_conv
    unfolding Let_def split_beta fst_conv snd_conv
    unfolding sy_def[symmetric] sx_def[symmetric] vy_def[symmetric] vx_def[symmetric]
    using oy ox by (simp add: ny nx iy ix cong: if_cong)
qed

lemma paste_disc_overlap:
  fixes cx cy r :: int
  assumes sq: "rows disc = nat (2 * r + 1)" "cols disc = nat (2 * r + 1)" and r: "0 \<le> r"
    and oy: "cy - r < HEIGHT" "0 \<le> cy + r" and ox: "cx - r < WIDTH" "0 \<le> cx + r"
  shows "paste_disc cx cy disc c =
     Inr (\<lambda>y x. if 0 \<le> y \<and> y < HEIGHT \<and> 0 \<le> x \<and> x < WIDTH
                    \<and> cy - r \<le> y \<and> y \<le> cy + r \<and> cx - r \<le> x \<and> x \<le> cx + r
                    \<and> cell disc (nat (y - (cy - r))) (nat (x - (cx - r))) \<noteq> 0
                 then cell disc (nat (y - (cy - r))) (nat (x - (cx - r))) else c y x)"
proof -
  have H: "0 < HEIGHT" and W: "0 < WIDTH" by (simp_all add: HEIGHT_def WIDTH_def)
  note ay = paste_axis_overlap[OF r H oy]
  note ax = paste_axis_overlap[OF r W ox]
  have ny: "min (2 * r + 1) (HEIGHT - cy + r) \<noteq> max 0 (r - cy)"
    "min (2 * r + 1) (HEIGHT - cy + r) - max 0 (r - cy)
       = min (cy + r + 1) HEIGHT - max (cy - r) 0"
    using r H oy by auto
  have nx: "min (2 * r + 1) (WIDTH - cx + r) \<noteq> max 0 (r - cx)"
    "min (2 * r + 1) (WIDTH - cx + r) - max 0 (r - cx)
       = min (cx + r + 1) WIDTH - max (cx - r) 0"
    using r W ox by auto
  have pointwise: "(if max (cy - r) 0 \<le> y \<and> y < min (cy + r + 1) HEIGHT
                \<and> max (cx - r) 0 \<le> x \<and> x < min (cx + r + 1) WIDTH
                \<and> 0 < cell disc (nat (max 0 (r - cy)) + nat (y - max (cy - r) 0))
                                 (nat (max 0 (r - cx)) + nat (x - max (cx - r) 0))
             then cell disc (nat (max 0 (r - cy)) + nat (y - max (cy - r) 0))
                            (nat (max 0 (r - cx)) + nat (x - max (cx - r) 0))
             else c y x)
          = (if 0 \<le> y \<and> y < HEIGHT \<and> 0 \<le> x \<and> x < WIDTH
                    \<and> cy - r \<le> y \<and> y \<le> cy + r \<and> cx - r \<le> x \<and> x \<le> cx + r
                    \<and> cell disc (nat (y - (cy - r))) (nat (x - (cx - r))) \<noteq> 0
                 then cell disc (nat (y - (cy - r))) (nat (x - (cx - r))) else c y x)" for y x
  proof (cases "max (cy - r) 0 \<le> y \<and> y < min (cy + r + 1) HEIGHT
                \<and> max (cx - r) 0 \<le> x \<and> x < min (cx + r + 1) WIDTH")
    case True
    then have iy: "nat (max 0 (r - cy)) + nat (y - max (cy - r) 0) = nat (y - (cy - r))"
      and ix: "nat (max 0 (r - cx)) + nat (x - max (cx - r) 0) = nat (x - (cx - r))"
      by (auto simp: max_def)
    from True have inb: "0 \<le> y \<and> y < HEIGHT \<and> 0 \<le> x \<and> x < WIDTH
                    \<and> cy - r \<le> y \<and> y \<le> cy + r \<and> cx - r \<le> x \<and> x \<le> cx + r"
      by auto
    show ?thesis
      unfolding iy ix using True inb by (simp add: word_gt_0)
  next
    case False
    then have neg: "\<not> (0 \<le> y \<and> y < HEIGHT \<and> 0 \<le> x \<and> x < WIDTH
                    \<and> cy - r \<le> y \<and> y \<le> cy + r \<and> cx - r \<le> x \<and> x \<le> cx + r)"
      by auto
    have l: "\<not> (max (cy - r) 0 \<le> y \<and> y < min (cy + r + 1) HEIGHT
                \<and> max (cx - r) 0 \<le> x \<and> x < min (cx + r + 1) WIDTH
                \<and> 0 < cell disc (nat (max 0 (r - cy)) + nat (y - max (cy - r) 0))
                                 (nat (max 0 (r - cx)) + nat (x - max (cx - r) 0)))"
      using False by blast
    have rr: "\<not> (0 \<le> y \<and> y < HEIGHT \<and> 0 \<le> x \<and> x < WIDTH
                    \<and> cy - r \<le> y \<and> y \<le> cy + r \<and> cx - r \<le> x \<and> x \<le> cx + r
                    \<and> cell disc (nat (y - (cy - r))) (nat (x - (cx - r))) \<noteq> 0)"
      using neg by blast
    show ?thesis by (simp only: l rr if_False)
  qed
  have "paste_disc cx cy disc c =
     Inr (\<lambda>y x. if max (cy - r) 0 \<le> y \<and> y < min (cy + r + 1) HEIGHT
                \<and> max (cx - r) 0 \<le> x \<and> x < min (cx + r + 1) WIDTH
                \<and> 0 < cell disc (nat (max 0 (r - cy)) + nat (y - max (cy - r) 0))
                                 (nat (max 0 (r - cx)) + nat (x - max (cx - r) 0))
             then cell disc (nat (max 0 (r - cy)) + nat (y - max (cy - r) 0))
                            (nat (max 0 (r - cx)) + nat (x - max (cx - r) 0))
             else c y x)"
    unfolding paste_disc_unfold[OF sq r] ay ax fst_conv snd_conv
    using ny nx by (simp only: simp_thms if_False if_True)
  then show ?thesis
    unfolding pointwise .
qed

lemma paste_disc_apart:
  fixes cx cy r :: int
  assumes sq: "rows disc = nat (2 * r + 1)" "cols disc = nat (2 * r + 1)" and r: "0 \<le> r"
    and apart: "\<not> (cy - r < HEIGHT \<and> 0 \<le> cy + r) \<or> \<not> (cx - r < WIDTH \<and> 0 \<le> cx + r)"
    and run: "paste_disc cx cy disc c = Inr c'"
  shows "c' = c"
proof -
  define sy where "sy = slice_bounds (2 * r + 1) (max 0 (- (cy - r)))
      (2 * r + 1 - max 0 (cy + r + 1 - HEIGHT))"
  define sx where "sx = slice_bounds (2 * r + 1) (max 0 (- (cx - r)))
      (2 * r + 1 - max 0 (cx + r + 1 - WIDTH))"
  define vy where "vy = slice_bounds HEIGHT (max (cy - r) 0) (min (cy + r + 1) HEIGHT)"
  define vx where "vx = slice_bounds WIDTH (max (cx - r) 0) (min (cx + r + 1) WIDTH)"
  note U = paste_disc_unfold[OF sq r, of cx cy c, folded sy_def sx_def vy_def vx_def]
  have H: "0 < HEIGHT" and W: "0 < WIDTH" by (simp_all add: HEIGHT_def WIDTH_def)
  have noerr: "\<not> ((snd sy \<noteq> fst sy \<and> snd sy - fst sy \<noteq> snd vy - fst vy)
         \<or> (snd sx \<noteq> fst sx \<and> snd sx - fst sx \<noteq> snd vx - fst vx))"
    using run unfolding U by (auto split: if_splits)
  have empty: "snd sy = fst sy \<or> snd sx = fst sx"
    using apart
  proof
    assume "\<not> (cy - r < HEIGHT \<and> 0 \<le> cy + r)"
    from paste_axis_apart[OF r H this, folded sy_def vy_def] noerr
    show ?thesis by auto
  next
    assume "\<not> (cx - r < WIDTH \<and> 0 \<le> cx + r)"
    from paste_axis_apart[OF r W this, folded sx_def vx_def] noerr
    show ?thesis by auto
  qed
  from run noerr empty show ?thesis
    unfolding U by (simp only: if_False if_True sum.inject)
qed

text \<open>
  Claim C8. For a square patch of side \<open>2r + 1\<close>: whenever the patch's footprint meets
  the canvas the paste returns a canvas, and in every canvas that a paste returns, a
  canvas pixel under a non-zero patch pixel holds the patch value, a canvas pixel under
  a zero patch pixel keeps its value, and every pixel outside the footprint keeps its
  value.
\<close>

theorem paste_disc_frame:
  fixes cx cy r :: int
  assumes "rows disc = nat (2 * r + 1)" and "cols disc = nat (2 * r + 1)" and "0 \<le> r"
  shows "(cy - r < HEIGHT \<and> 0 \<le> cy + r \<and> cx - r < WIDTH \<and> 0 \<le> cx + r \<longrightarrow>
            (\<exists>c'. paste_disc cx cy disc c = Inr c'))
    \<and> (paste_disc cx cy disc c = Inr c' \<longrightarrow>
         (\<forall>y x. c' y x =
            (if 0 \<le> y \<and> y < HEIGHT \<and> 0 \<le> x \<and> x < WIDTH
                \<and> cy - r \<le> y \<and> y \<le> cy + r \<and> cx - r \<le> x \<and> x \<le> cx + r
                \<and> cell disc (nat (y - (cy - r))) (nat (x - (cx - r))) \<noteq> 0
             then cell disc (nat (y - (cy - r))) (nat (x - (cx - r))) else c y x)))"
proof (intro conjI impI allI)
  assume "cy - r < HEIGHT \<and> 0 \<le> cy + r \<and> cx - r < WIDTH \<and> 0 \<le> cx + r"
  then show "\<exists>c'. paste_disc cx cy disc c = Inr c'"
    using paste_disc_overlap[OF assms, of cy cx c] by simp
next
  fix y x
  assume run: "paste_disc cx cy disc c = Inr c'"
  show "c' y x =
            (if 0 \<le> y \<and> y < HEIGHT \<and> 0 \<le> x \<and> x < WIDTH
                \<and> cy - r \<le> y \<and> y \<le> cy + r \<and> cx - r \<le> x \<and> x \<le> cx + r
                \<and> cell disc (nat (y - (cy - r))) (nat (x - (cx - r))) \<noteq> 0
             then cell disc (nat (y - (cy - r))) (nat (x - (cx - r))) else c y x)"
  proof (cases "(cy - r < HEIGHT \<and> 0 \<le> cy + r) \<and> (cx - r < WIDTH \<and> 0 \<le> cx + r)")
    case True
    then have "paste_disc cx cy disc c =
     Inr (\<lambda>y x. if 0 \<le> y \<and> y < HEIGHT \<and> 0 \<le> x \<and> x < WIDTH
                    \<and> cy - r \<le> y \<and> y \<le> cy + r \<and> cx - r \<le> x \<and> x \<le> cx + r
                    \<and> cell disc (nat (y - (cy - r))) (nat (x - (cx - r))) \<noteq> 0
                 then cell disc (nat (y - (cy - r))) (nat (x - (cx - r))) else c y x)"
      using paste_disc_overlap[OF assms, of cy cx c] by simp
    with run have "c' = (\<lambda>y x. if 0 \<le> y \<and> y < HEIGHT \<and> 0 \<le> x \<and> x < WIDTH
                    \<and> cy - r \<le> y \<and> y \<le> cy + r \<and> cx - r \<le> x \<and> x \<le> cx + r
                    \<and> cell disc (nat (y - (cy - r))) (nat (x - (cx - r))) \<noteq> 0
                 then cell disc (nat (y - (cy - r))) (nat (x - (cx - r))) else c y x)"
      by simp
    then show ?thesis by simp
  next
    case False
    then have ap: "\<not> (cy - r < HEIGHT \<and> 0 \<le> cy + r) \<or> \<not> (cx - r < WIDTH \<and> 0 \<le> cx + r)"
      by blast
    have same: "c' = c" by (rule paste_disc_apart[OF assms ap run])
    have "\<not> (0 \<le> y \<and> y < HEIGHT \<and> 0 \<le> x \<and> x < WIDTH
                \<and> cy - r \<le> y \<and> y \<le> cy + r \<and> cx - r \<le> x \<and> x \<le> cx + r)"
      using ap by auto
    then have "\<not> (0 \<le> y \<and> y < HEIGHT \<and> 0 \<le> x \<and> x < WIDTH
                \<and> cy - r \<le> y \<and> y \<le> cy + r \<and> cx - r \<le> x \<and> x \<le> cx + r
                \<and> cell disc (nat (y - (cy - r))) (nat (x - (cx - r))) \<noteq> 0)"
      by blast
    then show ?thesis unfolding same by (simp only: if_False)
  qed
qed

theorem paste_disc_frame_witness:
  "rows ring_disc = nat (2 * 1 + 1) \<and> cols ring_disc = nat (2 * 1 + 1) \<and> (0::int) \<le> 1
   \<and> (\<exists>c'. paste_disc 5 5 ring_disc (flat 9) = Inr c'
         \<and> c' 5 5 = 9 \<and> c' 4 5 = 500 \<and> c' 7 5 = 9)"
proof -
  have h: "rows ring_disc = nat (2 * 1 + 1)" "cols ring_disc = nat (2 * 1 + 1)" "(0::int) \<le> 1"
    by (simp_all add: ring_disc_def)
  have ov: "5 - 1 < HEIGHT \<and> 0 \<le> (5::int) + 1 \<and> 5 - 1 < WIDTH \<and> 0 \<le> (5::int) + 1"
    by (simp add: HEIGHT_def WIDTH_def)
  from paste_disc_frame[OF h, of 5 5 "flat 9"] ov
  obtain c' where run: "paste_disc 5 5 ring_disc (flat 9) = Inr c'"
    by blast
  from paste_disc_frame[OF h, of 5 5 "flat 9" c'] run
  have px: "\<forall>y x. c' y x =
            (if 0 \<le> y \<and> y < HEIGHT \<and> 0 \<le> x \<and> x < WIDTH
                \<and> 5 - 1 \<le> y \<and> y \<le> 5 + 1 \<and> 5 - 1 \<le> x \<and> x \<le> 5 + 1
                \<and> cell ring_disc (nat (y - (5 - 1))) (nat (x - (5 - 1))) \<noteq> 0
             then cell ring_disc (nat (y - (5 - 1))) (nat (x - (5 - 1))) else flat 9 y x)"
    by blast
  have "c' 5 5 = 9" "c' 4 5 = 500" "c' 7 5 = 9"
    by (simp_all add: px ring_disc_def flat_def HEIGHT_def WIDTH_def)
  with run h show ?thesis by blast
qed

subsection \<open>Moon placement\<close>

text \<open>
  Claim C5. For every entry of \<open>MOON_DATA\<close> the list of moons is not empty, and with
  \<open>b\<close> the outer radius of the parent's outermost ring, \<open>max_a\<close> the largest semi-major
  axis of the list and \<open>off a = b + 60 + a / max_a * b\<close>:
  the loop visits the moons by strictly ascending semi-major axis; the moon visited at
  index \<open>i\<close> is centred on the parent's column, \<open>off a\<close> rounded to the nearest pixel
  above the parent's centre (a smaller row) when \<open>i\<close> is even and as far below it when
  \<open>i\<close> is odd; every offset is less than 9/20 away from the pixel it is rounded to, so
  none is near a tie of the rounding; the moon's disc together with its ring, of outer
  radius \<open>mr + MOON_RING_OFF + MOON_RING_THICK\<close>, stays beyond \<open>b\<close>; and along the order
  of the visit both the offsets and their rounded values strictly increase. The textured
  disc of Earth's Moon (lines 176 to 183) is pasted at the very place the loop computes.
\<close>

theorem moons_placed:
  "(\<forall>(p, ms) \<in> set MOON_DATA.
     ms \<noteq> [] \<and>
     (let cxp = centre_x p; cyp = centre_y p; b = base_outer_of p;
          max_a = Max (set (map moon_a ms));
          order = sort_key moon_a ms;
          off = (\<lambda>a. of_int b + 60 + a / max_a * of_int b);
          px = (\<lambda>a. py_round (off a))
      in sorted_wrt (<) (map moon_a order)
       \<and> moon_places cxp cyp b ms
           = Inr (map (\<lambda>(i, n, r, a).
                        (n, cxp, (if even i then cyp - px a else cyp + px a), moon_radius r))
                    (enumerate 0 order))
       \<and> (\<forall>(n, r, a) \<in> set ms.
             \<bar>off a - of_int (px a)\<bar> < 9 / 20
             \<and> b < px a - (moon_radius r + MOON_RING_OFF + MOON_RING_THICK))
       \<and> sorted_wrt (<) (map (\<lambda>m. off (moon_a m)) order)
       \<and> sorted_wrt (<) (map (\<lambda>m. px (moon_a m)) order)))
   \<and> moon_places (centre_x Earth) (centre_y Earth) (base_outer_of Earth)
        [(''Moon'', 1737, 384400)] = Inr [(''Moon'', moon_cx, moon_cy, moon_radius_px)]"
  by code_simp

theorem moons_placed_witness:
  "(Saturn, [(''Titan'', 2575, 1221870), (''Rhea'', 764, 527108),
             (''Iapetus'', 735, 3560820), (''Dione'', 561, 377415)]) \<in> set MOON_DATA
   \<and> (''Dione'', 561, 377415)
       \<in> set ([(''Titan'', 2575, 1221870), (''Rhea'', 764, 527108),
                 (''Iapetus'', 735, 3560820), (''Dione'', 561, 377415)] :: moon list)
   \<and> moon_places (centre_x Saturn) (centre_y Saturn) (base_outer_of Saturn)
        [(''Titan'', 2575, 1221870), (''Rhea'', 764, 527108),
         (''Iapetus'', 735, 3560820), (''Dione'', 561, 377415)]
      = Inr [(''Dione'', 11063, 3414, 39), (''Rhea'', 11063, 4801, 54),
             (''Titan'', 11063, 3281, 183), (''Iapetus'', 11063, 5280, 51)]
   \<and> 562 < py_round (562 + 60 + 377415 / 3560820 * 562)
             - (moon_radius 561 + MOON_RING_OFF + MOON_RING_THICK)"
proof -
  let ?L = "[(''Titan'', 2575, 1221870), (''Rhea'', 764, 527108),
             (''Iapetus'', 735, 3560820), (''Dione'', 561, 377415)] :: moon list"
  let ?b = "base_outer_of Saturn"
  let ?off = "\<lambda>a. rat_of_int ?b + 60 + a / Max (set (map moon_a ?L)) * rat_of_int ?b"
  have m: "(Saturn, ?L) \<in> set MOON_DATA"
    by (simp add: MOON_DATA_def)
  have d: "(''Dione'', 561, 377415) \<in> set ?L"
    by simp
  note t = bspec[OF moons_placed[THEN conjunct1] m, unfolded prod.case Let_def, THEN conjunct2]
  have placed: "moon_places (centre_x Saturn) (centre_y Saturn) ?b ?L
      = Inr (map (\<lambda>(i, n, r, a).
                   (n, centre_x Saturn,
                    (if even i then centre_y Saturn - py_round (?off a)
                     else centre_y Saturn + py_round (?off a)),
                    moon_radius r))
               (enumerate 0 (sort_key moon_a ?L)))"
    by (rule t[THEN conjunct2, THEN conjunct1])
  have ev: "map (\<lambda>(i, n, r, a).
                   (n, centre_x Saturn,
                    (if even i then centre_y Saturn - py_round (?off a)
                     else centre_y Saturn + py_round (?off a)),
                    moon_radius r))
               (enumerate 0 (sort_key moon_a ?L))
      = [(''Dione'', 11063, 3414, 39), (''Rhea'', 11063, 4801, 54),
         (''Titan'', 11063, 3281, 183), (''Iapetus'', 11063, 5280, 51)]"
    by code_simp
  have run: "moon_places (centre_x Saturn) (centre_y Saturn) ?b ?L
      = Inr [(''Dione'', 11063, 3414, 39), (''Rhea'', 11063, 4801, 54),
             (''Titan'', 11063, 3281, 183), (''Iapetus'', 11063, 5280, 51)]"
    using placed unfolding ev .
  have b: "?b = 562" by code_simp
  have mx: "Max (set (map moon_a ?L)) = 3560820" by code_simp
  note inner = bspec[OF t[THEN conjunct2, THEN conjunct2, THEN conjunct1] d, unfolded prod.case,
      THEN conjunct2]
  have out: "562 < py_round (562 + 60 + 377415 / 3560820 * 562)
             - (moon_radius 561 + MOON_RING_OFF + MOON_RING_THICK)"
    using inner unfolding b mx by simp
  from m d run out show ?thesis by blast
qed

end
